theory Spec2Isabelle
  imports Complex_Main "HOL-Library.Word" "HOL-Library.Log_Nat"
begin

section \<open>Strings of the host language\<close>

text \<open>
  A string of the source language is a sequence of 16-bit code units. Literals that are
  plain ASCII are written through \<open>ascii\<close>; the Chinese table entries are given by their
  code units.
\<close>

type_synonym codeunit = "16 word"
type_synonym jsstring = "codeunit list"

definition ascii :: "string \<Rightarrow> jsstring" where
  "ascii s = map of_char s"

text \<open>
  The characters removed by \<open>String.prototype.trim\<close> and matched by the regular
  expression class \<open>\s\<close>: the white space and line terminator code points.
\<close>

definition isWhiteSpace :: "codeunit \<Rightarrow> bool" where
  "isWhiteSpace c \<longleftrightarrow>
     c = 0x0009 \<or> c = 0x000A \<or> c = 0x000B \<or> c = 0x000C \<or> c = 0x000D \<or> c = 0x0020 \<or>
     c = 0x00A0 \<or> c = 0x1680 \<or> (0x2000 \<le> c \<and> c \<le> 0x200A) \<or> c = 0x2028 \<or>
     c = 0x2029 \<or> c = 0x202F \<or> c = 0x205F \<or> c = 0x3000 \<or> c = 0xFEFF"

definition trim :: "jsstring \<Rightarrow> jsstring" where
  "trim s = rev (dropWhile isWhiteSpace (rev (dropWhile isWhiteSpace s)))"

text \<open>
  \<open>s.split(/\r?\n/)\<close>: the separator is a line feed, together with the carriage return
  right before it when there is one. The empty string splits into one empty piece.
\<close>

definition consFirst :: "codeunit \<Rightarrow> jsstring list \<Rightarrow> jsstring list" where
  "consFirst c ls = (case ls of [] \<Rightarrow> [[c]] | l # rest \<Rightarrow> (c # l) # rest)"

fun splitLines :: "jsstring \<Rightarrow> jsstring list" where
  "splitLines [] = [[]]"
| "splitLines [c] = (if c = 0x000A then [[], []] else [[c]])"
| "splitLines (c # d # ds) =
     (if c = 0x000A then [] # splitLines (d # ds)
      else if c = 0x000D \<and> d = 0x000A then [] # splitLines ds
      else consFirst c (splitLines (d # ds)))"

text \<open>\<open>s.replace(/\s+/, "T")\<close>: only the first run of white space is replaced.\<close>

definition replaceFirstSpaces :: "jsstring \<Rightarrow> jsstring" where
  "replaceFirstSpaces s =
     (let before = takeWhile (\<lambda>c. \<not> isWhiteSpace c) s;
          rest = dropWhile (\<lambda>c. \<not> isWhiteSpace c) s
      in if rest = [] then s else before @ ascii ''T'' @ dropWhile isWhiteSpace rest)"

section \<open>Colour utilities\<close>

definition isHexDigit :: "codeunit \<Rightarrow> bool" where
  "isHexDigit c \<longleftrightarrow>
     (0x30 \<le> c \<and> c \<le> 0x39) \<or> (0x61 \<le> c \<and> c \<le> 0x66) \<or> (0x41 \<le> c \<and> c \<le> 0x46)"

definition isUpperHexDigit :: "codeunit \<Rightarrow> bool" where
  "isUpperHexDigit c \<longleftrightarrow> (0x30 \<le> c \<and> c \<le> 0x39) \<or> (0x41 \<le> c \<and> c \<le> 0x46)"

text \<open>
  \<open>toUpperCase\<close> on one code unit. The source applies it to the capture group of the
  colour pattern only, which holds ASCII hexadecimal digits; on the ASCII range the
  conversion is the one below.
\<close>

definition toUpperCase :: "codeunit \<Rightarrow> codeunit" where
  "toUpperCase c = (if 0x61 \<le> c \<and> c \<le> 0x7A then c - 0x20 else c)"

text \<open>
  \<open>value.match(/^#([0-9a-fA-F]{6})$/)\<close>: the capture group on a match. Without the
  multiline flag both anchors are the ends of the input.
\<close>

definition matchColor :: "jsstring \<Rightarrow> jsstring option" where
  "matchColor v =
     (case v of
        [] \<Rightarrow> None
      | h # ds \<Rightarrow> if h = 0x23 \<and> length ds = 6 \<and> list_all isHexDigit ds then Some ds else None)"

text \<open>The argument \<open>None\<close> is \<open>undefined\<close>; \<open>!input\<close> also holds of the empty string.\<close>

definition normaliseColor :: "jsstring option \<Rightarrow> jsstring option" where
  "normaliseColor input =
     (case input of
        None \<Rightarrow> None
      | Some s \<Rightarrow>
          if s = [] then None
          else (case matchColor (trim s) of
                  None \<Rightarrow> None
                | Some m \<Rightarrow> Some (0x23 # map toUpperCase m)))"

definition colorsEqual :: "jsstring \<Rightarrow> jsstring \<Rightarrow> bool" where
  "colorsEqual a b \<longleftrightarrow> normaliseColor (Some a) = normaliseColor (Some b)"

section \<open>Dates\<close>

text \<open>
  A valid \<open>Date\<close> is its time value, an integer number of milliseconds; \<open>None\<close> stands
  for \<open>null\<close> where the source returns \<open>Date | null\<close>. \<open>Date.parse\<close> belongs to the host
  and what it accepts outside the ISO format is implementation-defined, so the parser is
  a parameter of every function that calls it: \<open>None\<close> is its result \<open>NaN\<close>.
\<close>

type_synonym dateParser = "jsstring \<Rightarrow> int option"

text \<open>\<open>new Date(timestamp)\<close>: a time value beyond the range of dates gives an invalid date.\<close>

definition newDate :: "int \<Rightarrow> int option" where
  "newDate timestamp = (if \<bar>timestamp\<bar> \<le> 8640000000000000 then Some timestamp else None)"

definition parseTargetDate :: "dateParser \<Rightarrow> jsstring option \<Rightarrow> int option" where
  "parseTargetDate dateParse input =
     (case input of
        None \<Rightarrow> None
      | Some s \<Rightarrow>
          if s = [] then None
          else (let normalized = replaceFirstSpaces (trim s)
                in case dateParse normalized of
                     None \<Rightarrow> None
                   | Some timestamp \<Rightarrow> newDate timestamp))"

section \<open>Text codec\<close>

text \<open>
  The three fields of a countdown. The source uses the same shape with a \<open>Date\<close> target
  (block data, modal result), a \<open>Date | null\<close> target (result of parsing) and a string
  target (argument of the serialiser).
\<close>

record 'd CountdownFields =
  target :: 'd
  label :: jsstring
  color :: jsstring

text \<open>\<open>xs[i]\<close> is \<open>undefined\<close> out of range; \<open>a || b\<close> on an optional string.\<close>

definition itemAt :: "'a list \<Rightarrow> nat \<Rightarrow> 'a option" where
  "itemAt xs i = (if i < length xs then Some (xs ! i) else None)"

definition orString :: "jsstring option \<Rightarrow> jsstring \<Rightarrow> jsstring" where
  "orString a b = (case a of None \<Rightarrow> b | Some s \<Rightarrow> if s = [] then b else s)"

definition countdownLines :: "jsstring \<Rightarrow> jsstring list" where
  "countdownLines source = filter (\<lambda>line. length line > 0) (map trim (splitLines source))"

definition parseCountdownSource ::
  "dateParser \<Rightarrow> jsstring \<Rightarrow> jsstring \<Rightarrow> jsstring \<Rightarrow> int option CountdownFields" where
  "parseCountdownSource dateParse source fallbackLabel fallbackColor =
     (let lines = countdownLines source
      in if length lines = 0
         then \<lparr>target = None, label = fallbackLabel, color = fallbackColor\<rparr>
         else \<lparr>target = parseTargetDate dateParse (itemAt lines 0),
               label = trim (orString (itemAt lines 1) fallbackLabel),
               color = (case normaliseColor (itemAt lines 2) of
                          None \<Rightarrow> fallbackColor
                        | Some c \<Rightarrow> c)\<rparr>)"

definition serializeCountdownLines :: "jsstring CountdownFields \<Rightarrow> jsstring list" where
  "serializeCountdownLines data =
     [[0x60, 0x60, 0x60] @ ascii ''countdown'', target data, label data, color data,
      [0x60, 0x60, 0x60]]"

text \<open>\<open>lines.join("\n")\<close>.\<close>

fun joinLines :: "jsstring list \<Rightarrow> jsstring" where
  "joinLines [] = []"
| "joinLines [l] = l"
| "joinLines (l # m # ls) = l @ [0x000A] @ joinLines (m # ls)"

text \<open>
  The callers serialise a record with a \<open>Date\<close> target through \<open>toISOString\<close>, a host
  function taken as a parameter. The body of the block, which the host hands back to
  the renderer, is the text between the two fence lines.
\<close>

definition blockLines :: "(int \<Rightarrow> jsstring) \<Rightarrow> int CountdownFields \<Rightarrow> jsstring list" where
  "blockLines toISOString data =
     serializeCountdownLines
       \<lparr>target = toISOString (target data), label = label data, color = color data\<rparr>"

definition blockBody :: "jsstring list \<Rightarrow> jsstring" where
  "blockBody ls = joinLines (butlast (tl ls))"

section \<open>Number formatting\<close>

text \<open>
  \<open>value.toString()\<close> for an integer of magnitude below \<open>10^21\<close>: its decimal digits,
  after a minus sign when it is negative. \<open>padStart\<close> repeats the filler and cuts it to
  the missing length.
\<close>

fun digitsOf :: "nat \<Rightarrow> jsstring" where
  "digitsOf n = (if n < 10 then [0x30 + of_nat n] else digitsOf (n div 10) @ [0x30 + of_nat (n mod 10)])"

declare digitsOf.simps [simp del]

definition isDecimalDigit :: "codeunit \<Rightarrow> bool" where
  "isDecimalDigit c \<longleftrightarrow> 0x30 \<le> c \<and> c \<le> 0x39"

definition numberToString :: "int \<Rightarrow> jsstring" where
  "numberToString v = (if v < 0 then ascii ''-'' @ digitsOf (nat (- v)) else digitsOf (nat v))"

definition padStart :: "jsstring \<Rightarrow> nat \<Rightarrow> jsstring \<Rightarrow> jsstring" where
  "padStart s n filler =
     (if n \<le> length s \<or> filler = [] then s
      else take (n - length s) (concat (replicate (n - length s) filler)) @ s)"

definition pad :: "int \<Rightarrow> jsstring" where
  "pad v = padStart (numberToString v) 2 (ascii ''0'')"

text \<open>The number written by a string of decimal digits, to read a display back.\<close>

definition decimalValue :: "jsstring \<Rightarrow> nat" where
  "decimalValue s = foldl (\<lambda>acc c. 10 * acc + unat (c - 0x30)) 0 s"

section \<open>Translations and settings\<close>

text \<open>
  Of the translation table, the entries read by the functions modelled here. The two
  tables are the only values of this type in the program, so the source's comparison
  of a table with \<open>enStrings\<close> or \<open>zhStrings\<close> by identity is equality here.
\<close>

record Translations =
  emptyWarning :: jsstring
  parseWarning :: jsstring
  applyError :: jsstring
  blockMissingTarget :: jsstring
  blockInvalidTarget :: jsstring
  defaultLabel :: jsstring

definition enStrings :: Translations where
  "enStrings =
     \<lparr>emptyWarning = ascii ''Please choose a target date and time.'',
      parseWarning = ascii ''Unable to parse the target date.'',
      applyError = ascii ''Failed to apply countdown changes.'',
      blockMissingTarget = ascii ''Countdown block needs a target date.'',
      blockInvalidTarget = ascii ''Invalid countdown target date.'',
      defaultLabel = ascii ''Countdown''\<rparr>"

definition zhStrings :: Translations where
  "zhStrings =
     \<lparr>emptyWarning = [0x8BF7, 0x9009, 0x62E9, 0x7ED3, 0x675F, 0x65F6, 0x95F4, 0x3002],
      parseWarning = [0x65E0, 0x6CD5, 0x89E3, 0x6790, 0x8BE5, 0x65F6, 0x95F4, 0xFF0C, 0x8BF7,
                      0x91CD, 0x65B0, 0x9009, 0x62E9, 0x3002],
      applyError = [0x5E94, 0x7528, 0x5012, 0x8BA1, 0x65F6, 0x65F6, 0x51FA, 0x9519, 0x3002],
      blockMissingTarget = [0x5012, 0x8BA1, 0x65F6, 0x4EE3, 0x7801, 0x5757, 0x7F3A, 0x5C11,
                            0x76EE, 0x6807, 0x65F6, 0x95F4, 0x3002],
      blockInvalidTarget = [0x5012, 0x8BA1, 0x65F6, 0x4EE3, 0x7801, 0x5757, 0x7684, 0x76EE,
                            0x6807, 0x65F6, 0x95F4, 0x65E0, 0x6548, 0x3002],
      defaultLabel = [0x5012, 0x8BA1, 0x65F6]\<rparr>"

text \<open>
  A number of the source is a double: not a number, an infinity, or a finite value,
  which is a rational. The settings' label is optional as the source reads it with
  \<open>?.\<close>.
\<close>

datatype jsnumber = NaN | PosInfinity | NegInfinity | Finite rat

record CountdownPluginSettings =
  defaultLabel :: "jsstring option"
  defaultDurationMinutes :: rat
  defaultColor :: jsstring

definition COLOR_PRESETS :: "jsstring list" where
  "COLOR_PRESETS =
     [ascii ''#F25C54'', ascii ''#F79009'', ascii ''#F2C94C'', ascii ''#12B76A'',
      ascii ''#2E90FA'', ascii ''#9E77ED'', ascii ''#98A2B3'']"

definition DEFAULT_SETTINGS :: CountdownPluginSettings where
  "DEFAULT_SETTINGS =
     \<lparr>defaultLabel = Some (ascii ''Countdown''),
      defaultDurationMinutes = 60,
      defaultColor = COLOR_PRESETS ! 1\<rparr>"

definition getDefaultLabel :: "Translations \<Rightarrow> CountdownPluginSettings \<Rightarrow> jsstring" where
  "getDefaultLabel strings settings =
     (case map_option trim (CountdownPluginSettings.defaultLabel settings) of
        None \<Rightarrow> Translations.defaultLabel strings
      | Some custom \<Rightarrow>
          if custom = [] then Translations.defaultLabel strings
          else if strings = enStrings \<and> custom = Translations.defaultLabel zhStrings
          then Translations.defaultLabel strings
          else if strings = zhStrings \<and> custom = Translations.defaultLabel enStrings
          then Translations.defaultLabel strings
          else custom)"

section \<open>Rendering a block\<close>

text \<open>
  The renderer either writes a paragraph with a message or mounts a countdown view on
  the parsed target, label and colour.
\<close>

datatype Rendered = Paragraph jsstring | Mounted "int CountdownFields"

definition renderCountdownBlock ::
  "dateParser \<Rightarrow> Translations \<Rightarrow> CountdownPluginSettings \<Rightarrow> jsstring \<Rightarrow> Rendered" where
  "renderCountdownBlock dateParse strings settings source =
     (let trimmedSource = trim source;
          parsed = parseCountdownSource dateParse source (getDefaultLabel strings settings)
                     (defaultColor settings)
      in case target parsed of
           None \<Rightarrow>
             Paragraph (if length trimmedSource \<noteq> 0 then blockInvalidTarget strings
                        else blockMissingTarget strings)
         | Some t \<Rightarrow> Mounted \<lparr>target = t, label = label parsed, color = color parsed\<rparr>)"

section \<open>Double precision arithmetic\<close>

text \<open>
  A number of the source is a double. A finite double is a rational number, and an
  arithmetic operation of the source returns the exact result rounded to the nearest
  double, to the even significand on a tie. \<open>roundToDouble\<close> is this rounding to 53
  significant bits: the exponent of the argument gives the unit in the last place, and
  the argument in these units is rounded to the nearest integer. The exponent range of
  doubles is not modelled: the magnitudes that occur here lie between \<open>2^-17\<close> and \<open>2^54\<close>.
  \<open>Math.floor\<close> is the floor, \<open>%\<close> on integers is exact.
\<close>

definition roundHalfEven :: "rat \<Rightarrow> int" where
  "roundHalfEven y =
     (let f = \<lfloor>y\<rfloor>; r = y - of_int f
      in if r < 1 / 2 then f else if 1 / 2 < r then f + 1 else if even f then f else f + 1)"

definition exponentOf :: "rat \<Rightarrow> int" where
  "exponentOf x =
     (if 1 \<le> \<bar>x\<bar> then bitlen \<lfloor>\<bar>x\<bar>\<rfloor> - 1 else - bitlen (\<lceil>1 / \<bar>x\<bar>\<rceil> - 1))"

definition roundToDouble :: "rat \<Rightarrow> rat" where
  "roundToDouble x =
     (if x = 0 then 0
      else (let ulp = power_int 2 (exponentOf x - 52)
            in of_int (roundHalfEven (x / ulp)) * ulp))"

section \<open>Countdown view\<close>

text \<open>
  The view holds the target, label and colour of its block, the handle of its repeating
  timer, the text of the four value elements and whether its container carries the
  expired class. The set of repeating timers that the window has running is carried
  along, since \<open>setInterval\<close> and \<open>clearInterval\<close> change it. \<open>Date.now()\<close> is an argument
  of every function that reads the clock. The target and the clock are time values:
  integers of magnitude at most 8640000000000000, which are doubles.
\<close>

record ValueEls =
  days :: jsstring
  hours :: jsstring
  minutes :: jsstring
  seconds :: jsstring

record CountdownView = "int CountdownFields" +
  hasContext :: bool
  intervalId :: "nat option"
  valueEls :: ValueEls
  expired :: bool
  windowIntervals :: "nat set"

text \<open>\<open>if (this.intervalId) { window.clearInterval(this.intervalId); this.intervalId = null; }\<close>:
  the test fails on \<open>null\<close> and on the handle \<open>0\<close>.\<close>

definition clearOwnInterval :: "CountdownView \<Rightarrow> CountdownView" where
  "clearOwnInterval v =
     (case intervalId v of
        None \<Rightarrow> v
      | Some i \<Rightarrow>
          if i \<noteq> 0 then v\<lparr>windowIntervals := windowIntervals v - {i}, intervalId := None\<rparr>
          else v)"

definition tick :: "int \<Rightarrow> CountdownView \<Rightarrow> CountdownView" where
  "tick now v =
     (let diffMs = roundToDouble (of_int (target v) - of_int now);
          totalSeconds = max 0 \<lfloor>roundToDouble (diffMs / 1000)\<rfloor>;
          d = \<lfloor>roundToDouble (of_int totalSeconds / 86400)\<rfloor>;
          h = \<lfloor>roundToDouble (of_int (totalSeconds mod 86400) / 3600)\<rfloor>;
          m = \<lfloor>roundToDouble (of_int (totalSeconds mod 3600) / 60)\<rfloor>;
          s = totalSeconds mod 60;
          v1 = v\<lparr>valueEls := \<lparr>days = pad d, hours = pad h, minutes = pad m, seconds = pad s\<rparr>\<rparr>
      in if diffMs \<le> 0 then clearOwnInterval (v1\<lparr>expired := True\<rparr>)
         else v1\<lparr>expired := False\<rparr>)"







section \<open>Edit modal\<close>

text \<open>
  The three field values of the modal, whether it is open, the notices it has shown and
  the results it has passed to the submit handler. The handler is the caller's: it
  either returns (\<open>True\<close>) or throws (\<open>False\<close>).
\<close>

record CountdownModal =
  targetValue :: jsstring
  labelValue :: jsstring
  colorValue :: jsstring
  isOpen :: bool
  notices :: "jsstring list"
  submitted :: "int CountdownFields list"

definition handleSubmit ::
  "dateParser \<Rightarrow> Translations \<Rightarrow> CountdownPluginSettings \<Rightarrow> (int CountdownFields \<Rightarrow> bool)
     \<Rightarrow> CountdownModal \<Rightarrow> CountdownModal" where
  "handleSubmit dateParse strings settings onSubmit modal =
     (if targetValue modal = [] then modal\<lparr>notices := notices modal @ [emptyWarning strings]\<rparr>
      else (case parseTargetDate dateParse (Some (targetValue modal)) of
              None \<Rightarrow> modal\<lparr>notices := notices modal @ [parseWarning strings]\<rparr>
            | Some parsed \<Rightarrow>
                (let lbl = orString (Some (trim (labelValue modal)))
                             (getDefaultLabel strings settings);
                     col = (case normaliseColor (Some (colorValue modal)) of
                              None \<Rightarrow> defaultColor settings
                            | Some c \<Rightarrow> c);
                     result = \<lparr>target = parsed, label = lbl, color = col\<rparr>;
                     called = modal\<lparr>submitted := submitted modal @ [result]\<rparr>
                 in if onSubmit result then called\<lparr>isOpen := False\<rparr>
                    else called\<lparr>notices := notices called @ [applyError strings]\<rparr>)))"

text \<open>The cancel button closes the modal.\<close>

definition cancel :: "CountdownModal \<Rightarrow> CountdownModal" where
  "cancel modal = modal\<lparr>isOpen := False\<rparr>"

section \<open>Settings panel\<close>

text \<open>
  The change handler of the duration field. \<open>Number(value)\<close> is the host's conversion
  of the field's text and is a parameter.
\<close>

definition durationChanged ::
  "(jsstring \<Rightarrow> jsnumber) \<Rightarrow> jsstring \<Rightarrow> CountdownPluginSettings \<Rightarrow> CountdownPluginSettings" where
  "durationChanged toNumber v settings =
     (case toNumber v of
        Finite parsed \<Rightarrow>
          if parsed \<le> 0 then settings
          else settings\<lparr>defaultDurationMinutes := of_int \<lfloor>parsed\<rfloor>\<rparr>
      | _ \<Rightarrow> settings)"

definition positiveInteger :: "rat \<Rightarrow> bool" where
  "positiveInteger x \<longleftrightarrow> 0 < x \<and> of_int \<lfloor>x\<rfloor> = x"

section \<open>Locale resolution\<close>

text \<open>
  A value of unknown type is a string or something else. The application object is seen
  through the properties it has, and its vault through \<open>getConfig\<close> when that is a
  function; the window through \<open>localStorage\<close>, when there is one, as the map from keys
  to stored strings; the navigator through the value of its \<open>language\<close>.
\<close>

datatype jsvalue = JSString jsstring | JSOther

definition getOptionalString :: "jsvalue \<Rightarrow> jsstring option" where
  "getOptionalString v = (case v of JSString s \<Rightarrow> Some s | JSOther \<Rightarrow> None)"

record App =
  props :: "jsstring \<Rightarrow> jsvalue option"
  vaultGetConfig :: "(jsstring \<Rightarrow> jsvalue) option"

record Window =
  localStorage :: "(jsstring \<Rightarrow> jsstring option) option"

definition getObjectString :: "(jsstring \<Rightarrow> jsvalue option) \<Rightarrow> jsstring \<Rightarrow> jsstring option" where
  "getObjectString source key =
     (case source key of None \<Rightarrow> None | Some v \<Rightarrow> getOptionalString v)"

definition getVaultLocale :: "(jsstring \<Rightarrow> jsvalue) option \<Rightarrow> jsstring option" where
  "getVaultLocale maybeGetConfig =
     (case maybeGetConfig of
        None \<Rightarrow> None
      | Some getConfig \<Rightarrow> getOptionalString (getConfig (ascii ''locale'')))"

definition storageLanguage :: "Window option \<Rightarrow> jsstring option" where
  "storageLanguage window =
     (case window of
        None \<Rightarrow> None
      | Some w \<Rightarrow>
          (case localStorage w of
             None \<Rightarrow> None
           | Some getItem \<Rightarrow>
               (case getItem (ascii ''language'') of
                  None \<Rightarrow> getItem (ascii ''lang'')
                | Some s \<Rightarrow> Some s)))"

definition navigatorLanguage :: "jsvalue option \<Rightarrow> jsstring option" where
  "navigatorLanguage navigator =
     (case navigator of None \<Rightarrow> None | Some language \<Rightarrow> getOptionalString language)"

text \<open>
  \<open>toLowerCase\<close> on one code unit, on the ASCII range. No other character has \<open>z\<close> or \<open>h\<close>
  as its lower case, so the test for the prefix \<open>zh\<close> is not affected by the rest.
\<close>

definition toLowerCase :: "codeunit \<Rightarrow> codeunit" where
  "toLowerCase c = (if 0x41 \<le> c \<and> c \<le> 0x5A then c + 0x20 else c)"

definition startsWith :: "jsstring \<Rightarrow> jsstring \<Rightarrow> bool" where
  "startsWith s p \<longleftrightarrow> take (length p) s = p"

definition getTranslations :: "App \<Rightarrow> Window option \<Rightarrow> jsvalue option \<Rightarrow> Translations" where
  "getTranslations app window navigator =
     (let localeCandidate =
            (case getObjectString (props app) (ascii ''locale'') of
               Some s \<Rightarrow> s
             | None \<Rightarrow>
            (case getObjectString (props app) (ascii ''lang'') of
               Some s \<Rightarrow> s
             | None \<Rightarrow>
            (case getVaultLocale (vaultGetConfig app) of
               Some s \<Rightarrow> s
             | None \<Rightarrow>
            (case storageLanguage window of
               Some s \<Rightarrow> s
             | None \<Rightarrow>
            (case navigatorLanguage navigator of
               Some s \<Rightarrow> s
             | None \<Rightarrow> ascii ''en'')))));
          locale = map toLowerCase localeCandidate
      in if startsWith locale (ascii ''zh'') then zhStrings else enStrings)"

text \<open>
  The resolution in the words of the specification: the locale providers in their
  order, and the choice among their answers, once as the first answer that is a string
  and once as the first answer that is a non-empty string.
\<close>

definition localeProviders :: "App \<Rightarrow> Window option \<Rightarrow> jsvalue option \<Rightarrow> jsstring option list" where
  "localeProviders app window navigator =
     [getObjectString (props app) (ascii ''locale''),
      getObjectString (props app) (ascii ''lang''),
      getVaultLocale (vaultGetConfig app),
      storageLanguage window,
      navigatorLanguage navigator]"

fun firstString_spec :: "jsstring option list \<Rightarrow> jsstring" where
  "firstString_spec [] = ascii ''en''"
| "firstString_spec (Some s # rest) = s"
| "firstString_spec (None # rest) = firstString_spec rest"

fun firstNonEmpty_spec :: "jsstring option list \<Rightarrow> jsstring" where
  "firstNonEmpty_spec [] = ascii ''en''"
| "firstNonEmpty_spec (Some s # rest) = (if s \<noteq> [] then s else firstNonEmpty_spec rest)"
| "firstNonEmpty_spec (None # rest) = firstNonEmpty_spec rest"

definition tableFor_spec :: "jsstring \<Rightarrow> Translations" where
  "tableFor_spec locale =
     (case locale of
        z # h # rest \<Rightarrow>
          if (z = 0x7A \<or> z = 0x5A) \<and> (h = 0x68 \<or> h = 0x48) then zhStrings else enStrings
      | _ \<Rightarrow> enStrings)"

section \<open>Properties of the colour utilities\<close>

lemma matchColor_Some_iff:
  "matchColor v = Some ds \<longleftrightarrow> v = 0x23 # ds \<and> length ds = 6 \<and> list_all isHexDigit ds"
  by (cases v) (auto simp: matchColor_def)

lemma trim_Nil [simp]: "trim [] = []"
  by (simp add: trim_def)

lemma isUpperHexDigit_toUpperCase:
  assumes "isHexDigit c"
  shows "isUpperHexDigit (toUpperCase c)"
  using assms unfolding isHexDigit_def isUpperHexDigit_def toUpperCase_def
  by (auto simp: word_le_nat_alt unat_sub)

lemma list_all_toUpperCase:
  "list_all isHexDigit ds \<Longrightarrow> list_all isUpperHexDigit (map toUpperCase ds)"
  by (induction ds) (simp_all add: isUpperHexDigit_toUpperCase)

lemma normaliseColor_Some_iff:
  "normaliseColor (Some s) = Some r \<longleftrightarrow>
     (\<exists>ds. trim s = 0x23 # ds \<and> length ds = 6 \<and> list_all isHexDigit ds
           \<and> r = 0x23 # map toUpperCase ds)"
proof (cases "s = []")
  case True
  then show ?thesis by (simp add: normaliseColor_def)
next
  case False
  show ?thesis
  proof (cases "matchColor (trim s)")
    case None
    then have "\<not> (\<exists>ds. trim s = 0x23 # ds \<and> length ds = 6 \<and> list_all isHexDigit ds)"
      using matchColor_Some_iff [of "trim s"] by auto
    with None False show ?thesis by (auto simp: normaliseColor_def)
  next
    case (Some m)
    then have "trim s = 0x23 # m \<and> length m = 6 \<and> list_all isHexDigit m"
      by (simp add: matchColor_Some_iff)
    with Some False show ?thesis by (auto simp: normaliseColor_def)
  qed
qed

lemma normaliseColor_shape:
  assumes "normaliseColor (Some s) = Some r"
  shows "length r = 7 \<and> hd r = 0x23 \<and> list_all isUpperHexDigit (tl r)"
proof -
  from assms obtain ds where "length ds = 6" "list_all isHexDigit ds"
    "r = 0x23 # map toUpperCase ds"
    unfolding normaliseColor_Some_iff by blast
  then show ?thesis by (simp add: list_all_toUpperCase)
qed

text \<open>
  Claim C2, as the code has it: the comparison is the equality of the two normalised
  values, so an unnormalisable \<open>a\<close> differs from every normalisable \<open>b\<close> and equals
  every unnormalisable \<open>b\<close> (both sides are null).
\<close>

theorem colorsEqual_unnormalisable:
  "normaliseColor (Some a) = None \<Longrightarrow> colorsEqual a b \<longleftrightarrow> normaliseColor (Some b) = None"
  by (auto simp: colorsEqual_def)

theorem colorsEqual_unnormalisable_witness:
  "normaliseColor (Some (ascii ''red'')) = None
   \<and> \<not> colorsEqual (ascii ''red'') (ascii ''#2E90FA'')
   \<and> normaliseColor (Some (ascii ''#2E90FA'')) \<noteq> None"
proof -
  have h: "normaliseColor (Some (ascii ''red'')) = None"
    by (simp add: normaliseColor_def matchColor_def trim_def isWhiteSpace_def ascii_def)
  have n: "normaliseColor (Some (ascii ''#2E90FA'')) \<noteq> None"
    by (simp add: normaliseColor_def matchColor_def trim_def isWhiteSpace_def ascii_def
        isHexDigit_def)
  from colorsEqual_unnormalisable [OF h, of "ascii ''#2E90FA''"] h n show ?thesis
    by simp
qed

text \<open>
  Claim C2 as stated fails: the two distinct unnormalisable inputs \<open>red\<close> and \<open>blue\<close>
  are reported equal.
\<close>

theorem colorsEqual_null_counterexample:
  "normaliseColor (Some (ascii ''red'')) = None
   \<and> ascii ''red'' \<noteq> ascii ''blue''
   \<and> colorsEqual (ascii ''red'') (ascii ''blue'')"
  by (simp add: colorsEqual_def normaliseColor_def matchColor_def trim_def isWhiteSpace_def
      ascii_def)

text \<open>
  Claim C3, as the code has it: the input is trimmed first, and normalisation succeeds
  exactly when the trimmed input is \<open>#\<close> followed by six hexadecimal digits; the result
  is \<open>#\<close> followed by those digits in upper case, so it matches \<open>#[0-9A-F]{6}\<close>.
\<close>

theorem normaliseColor_iff:
  "(normaliseColor (Some s) = Some r \<longleftrightarrow>
      (\<exists>ds. trim s = 0x23 # ds \<and> length ds = 6 \<and> list_all isHexDigit ds
            \<and> r = 0x23 # map toUpperCase ds))
   \<and> (normaliseColor (Some s) = Some r \<longrightarrow>
        length r = 7 \<and> hd r = 0x23 \<and> list_all isUpperHexDigit (tl r))"
  using normaliseColor_Some_iff [of s r] normaliseColor_shape [of s r] by blast

theorem normaliseColor_iff_witness:
  "normaliseColor (Some (ascii ''#2e90fa'')) = Some (ascii ''#2E90FA'')
   \<and> list_all isUpperHexDigit (tl (ascii ''#2E90FA''))
   \<and> normaliseColor (Some (ascii ''#fff'')) = None
   \<and> normaliseColor (Some (ascii ''red'')) = None
   \<and> normaliseColor (Some (ascii ''rgb(46,144,250)'')) = None
   \<and> normaliseColor (Some (ascii ''#2e90fg'')) = None"
proof -
  have e: "normaliseColor (Some (ascii ''#2e90fa'')) = Some (ascii ''#2E90FA'')"
    by (simp add: normaliseColor_def matchColor_def trim_def isWhiteSpace_def ascii_def
        isHexDigit_def toUpperCase_def)
  have n: "normaliseColor (Some (ascii ''#fff'')) = None"
    "normaliseColor (Some (ascii ''red'')) = None"
    "normaliseColor (Some (ascii ''rgb(46,144,250)'')) = None"
    "normaliseColor (Some (ascii ''#2e90fg'')) = None"
    by (simp_all add: normaliseColor_def matchColor_def trim_def isWhiteSpace_def ascii_def
        isHexDigit_def)
  from normaliseColor_iff [of "ascii ''#2e90fa''" "ascii ''#2E90FA''"] e n show ?thesis
    by simp
qed

text \<open>
  Claim C3 as stated fails: an input with surrounding white space does not match the
  anchored pattern, and is normalised all the same.
\<close>

theorem normaliseColor_trim_counterexample:
  "matchColor (ascii '' #2e90fa '') = None
   \<and> normaliseColor (Some (ascii '' #2e90fa '')) = Some (ascii ''#2E90FA'')"
  by (simp add: normaliseColor_def matchColor_def trim_def isWhiteSpace_def ascii_def
      isHexDigit_def toUpperCase_def)

section \<open>Properties of lines and trimming\<close>

lemma Ball_dropWhile_iff: "(\<forall>x\<in>set (dropWhile P s). P x) \<longleftrightarrow> (\<forall>x\<in>set s. P x)"
  by (induction s) auto

lemma trim_eq_Nil_iff: "trim s = [] \<longleftrightarrow> (\<forall>c\<in>set s. isWhiteSpace c)"
  by (simp add: trim_def dropWhile_eq_Nil_conv Ball_dropWhile_iff)

lemma Ball_consFirst:
  "(\<forall>l\<in>set (consFirst c ls). \<forall>x\<in>set l. P x) \<longleftrightarrow> P c \<and> (\<forall>l\<in>set ls. \<forall>x\<in>set l. P x)"
  by (cases ls) (auto simp: consFirst_def)

lemma Ball_splitLines:
  assumes "P 0x000A" and "P 0x000D"
  shows "(\<forall>l\<in>set (splitLines s). \<forall>c\<in>set l. P c) \<longleftrightarrow> (\<forall>c\<in>set s. P c)"
proof (induction s rule: splitLines.induct)
  case 1
  show ?case by simp
next
  case (2 c)
  from assms show ?case by simp
next
  case (3 c d ds)
  show ?case
  proof (cases "c = 0x000A")
    case True
    with 3 assms show ?thesis by simp
  next
    case False
    show ?thesis
    proof (cases "c = 0x000D \<and> d = 0x000A")
      case True
      with 3 assms show ?thesis by simp
    next
      case nocr: False
      with False 3 have ih: "(\<forall>l\<in>set (splitLines (d # ds)). \<forall>c\<in>set l. P c) \<longleftrightarrow> (\<forall>c\<in>set (d # ds). P c)"
        by blast
      from False nocr have eq: "splitLines (c # d # ds) = consFirst c (splitLines (d # ds))"
        by auto
      show ?thesis unfolding eq Ball_consFirst ih by simp
    qed
  qed
qed

lemma countdownLines_Nil_iff: "countdownLines source = [] \<longleftrightarrow> trim source = []"
proof -
  have "countdownLines source = [] \<longleftrightarrow> (\<forall>l\<in>set (splitLines source). trim l = [])"
    by (auto simp: countdownLines_def filter_empty_conv)
  also have "\<dots> \<longleftrightarrow> (\<forall>l\<in>set (splitLines source). \<forall>c\<in>set l. isWhiteSpace c)"
    by (simp add: trim_eq_Nil_iff)
  also have "\<dots> \<longleftrightarrow> (\<forall>c\<in>set source. isWhiteSpace c)"
    by (rule Ball_splitLines) (simp_all add: isWhiteSpace_def)
  finally show ?thesis by (simp add: trim_eq_Nil_iff)
qed

lemma dropWhile_id: "s \<noteq> [] \<Longrightarrow> \<not> P (hd s) \<Longrightarrow> dropWhile P s = s"
  by (cases s) simp_all

lemma trim_id: "s \<noteq> [] \<Longrightarrow> \<not> isWhiteSpace (hd s) \<Longrightarrow> \<not> isWhiteSpace (last s) \<Longrightarrow> trim s = s"
  by (simp add: trim_def dropWhile_id hd_rev)

lemma trim_ends:
  assumes "trim s \<noteq> []"
  shows "\<not> isWhiteSpace (hd (trim s)) \<and> \<not> isWhiteSpace (last (trim s))"
proof -
  define X where "X = dropWhile isWhiteSpace s"
  define Y where "Y = dropWhile isWhiteSpace (rev X)"
  have t: "trim s = rev Y" by (simp add: trim_def X_def Y_def)
  with assms have Y: "Y \<noteq> []" by simp
  then have "\<not> isWhiteSpace (hd Y)" unfolding Y_def by (rule hd_dropWhile)
  with Y have l: "\<not> isWhiteSpace (last (rev Y))" by (simp add: last_rev)
  from Y have X: "X \<noteq> []" unfolding Y_def by auto
  then have hX: "\<not> isWhiteSpace (hd X)" unfolding X_def by (rule hd_dropWhile)
  have "rev X = takeWhile isWhiteSpace (rev X) @ Y" by (simp add: Y_def)
  then have "rev (rev X) = rev (takeWhile isWhiteSpace (rev X) @ Y)" by (rule arg_cong)
  then have "X = rev Y @ rev (takeWhile isWhiteSpace (rev X))" by simp
  with Y have "hd X = hd (rev Y)" by (metis hd_append2 rev_is_Nil_conv)
  with hX l t show ?thesis by simp
qed

lemma trim_idem: "trim (trim s) = trim s"
proof (cases "trim s = []")
  case True
  then show ?thesis by simp
next
  case False
  with trim_ends [OF False] show ?thesis by (simp add: trim_id)
qed

lemma trim_no_white: "\<forall>c\<in>set s. \<not> isWhiteSpace c \<Longrightarrow> trim s = s"
  by (cases "s = []") (simp_all add: trim_id)

lemma countdownLines_trimmed:
  "line \<in> set (countdownLines source) \<Longrightarrow> line \<noteq> [] \<and> trim line = line"
  by (auto simp: countdownLines_def trim_idem)

lemma itemAt_take: "i < n \<Longrightarrow> itemAt (take n xs) i = itemAt xs i"
  by (simp add: itemAt_def)

lemma parseCountdownSource_take:
  "parseCountdownSource dateParse source fl fc =
     (let lines = take 3 (countdownLines source)
      in if length lines = 0
         then \<lparr>target = None, label = fl, color = fc\<rparr>
         else \<lparr>target = parseTargetDate dateParse (itemAt lines 0),
               label = trim (orString (itemAt lines 1) fl),
               color = (case normaliseColor (itemAt lines 2) of None \<Rightarrow> fc | Some c \<Rightarrow> c)\<rparr>)"
  by (simp add: parseCountdownSource_def Let_def itemAt_take)

lemma parseCountdownSource_label_trimmed:
  assumes "countdownLines source \<noteq> []"
  shows "trim (label (parseCountdownSource dateParse source fl fc))
           = label (parseCountdownSource dateParse source fl fc)"
  using assms by (simp add: parseCountdownSource_def Let_def trim_idem)

lemma getDefaultLabel_cases:
  "getDefaultLabel strings settings = Translations.defaultLabel strings
   \<or> (\<exists>x. getDefaultLabel strings settings = trim x)"
proof (cases "CountdownPluginSettings.defaultLabel settings")
  case None
  then show ?thesis by (simp add: getDefaultLabel_def)
next
  case (Some x)
  then have "getDefaultLabel strings settings = Translations.defaultLabel strings
     \<or> getDefaultLabel strings settings = trim x"
    by (simp add: getDefaultLabel_def)
  then show ?thesis by blast
qed

lemma defaultLabel_en_trimmed:
  "trim (Translations.defaultLabel enStrings) = Translations.defaultLabel enStrings"
  by (simp add: enStrings_def trim_def isWhiteSpace_def ascii_def)

lemma defaultLabel_zh_trimmed:
  "trim (Translations.defaultLabel zhStrings) = Translations.defaultLabel zhStrings"
  by (simp add: zhStrings_def trim_def isWhiteSpace_def)

lemma getDefaultLabel_trimmed:
  assumes "strings = enStrings \<or> strings = zhStrings"
  shows "trim (getDefaultLabel strings settings) = getDefaultLabel strings settings"
proof -
  from assms have t: "trim (Translations.defaultLabel strings) = Translations.defaultLabel strings"
    using defaultLabel_en_trimmed defaultLabel_zh_trimmed by blast
  from getDefaultLabel_cases [of strings settings] show ?thesis
  proof
    assume "getDefaultLabel strings settings = Translations.defaultLabel strings"
    with t show ?thesis by simp
  next
    assume "\<exists>x. getDefaultLabel strings settings = trim x"
    then obtain x where "getDefaultLabel strings settings = trim x" ..
    then show ?thesis by (simp add: trim_idem)
  qed
qed

lemma splitLines_no_LF: "0x000A \<notin> set a \<Longrightarrow> splitLines a = [a]"
proof (induction a rule: splitLines.induct)
  case 1
  show ?case by simp
next
  case (2 c)
  then show ?case by simp
next
  case (3 c d ds)
  then have "c \<noteq> 0x000A" "d \<noteq> 0x000A" "splitLines (d # ds) = [d # ds]" by auto
  then show ?case by (simp add: consFirst_def)
qed

lemma splitLines_append_LF:
  "0x000A \<notin> set a \<Longrightarrow>
   \<exists>a'. splitLines (a @ 0x000A # rest) = a' # splitLines rest \<and> (a' = a \<or> a = a' @ [0x000D])"
proof (induction a)
  case Nil
  show ?case by (cases rest) simp_all
next
  case (Cons c a)
  then have c: "c \<noteq> 0x000A" and a: "0x000A \<notin> set a" by auto
  from Cons.IH [OF a] obtain a' where
    s: "splitLines (a @ 0x000A # rest) = a' # splitLines rest" and
    d: "a' = a \<or> a = a' @ [0x000D]" by blast
  obtain e es where t: "a @ 0x000A # rest = e # es" by (cases a) auto
  show ?case
  proof (cases "c = 0x000D \<and> e = 0x000A")
    case True
    with a t have "a = []" "es = rest" by (cases a; auto)+
    with True show ?thesis by (cases rest) auto
  next
    case False
    with c t have "splitLines ((c # a) @ 0x000A # rest) = consFirst c (splitLines (a @ 0x000A # rest))"
      by auto
    with s have "splitLines ((c # a) @ 0x000A # rest) = (c # a') # splitLines rest"
      by (simp add: consFirst_def)
    with d show ?thesis by auto
  qed
qed

lemma trim_append_white: "isWhiteSpace w \<Longrightarrow> trim (a @ [w]) = trim a"
proof (cases "\<forall>c\<in>set a. isWhiteSpace c")
  case True
  assume "isWhiteSpace w"
  with True have "trim (a @ [w]) = []" "trim a = []" by (simp_all add: trim_eq_Nil_iff)
  then show ?thesis by simp
next
  case False
  assume w: "isWhiteSpace w"
  from False obtain x where "x \<in> set a" "\<not> isWhiteSpace x" by blast
  then have "dropWhile isWhiteSpace (a @ [w]) = dropWhile isWhiteSpace a @ [w]"
    by (rule dropWhile_append1)
  with w show ?thesis by (simp add: trim_def)
qed

lemma splitLines_append_LF_trim:
  assumes "0x000A \<notin> set a"
  obtains a' where "splitLines (a @ 0x000A # rest) = a' # splitLines rest" "trim a' = trim a"
proof -
  from splitLines_append_LF [OF assms, of rest] obtain a' where
    s: "splitLines (a @ 0x000A # rest) = a' # splitLines rest" and
    d: "a' = a \<or> a = a' @ [0x000D]" by blast
  from d have "trim a' = trim a"
    by (auto simp: trim_append_white isWhiteSpace_def)
  with s that show ?thesis by blast
qed

lemma replaceFirstSpaces_no_white:
  "\<forall>c\<in>set s. \<not> isWhiteSpace c \<Longrightarrow> replaceFirstSpaces s = s"
  by (simp add: replaceFirstSpaces_def dropWhile_eq_Nil_conv)

lemma normalised_no_white:
  assumes "normaliseColor (Some c) = Some c"
  shows "c \<noteq> [] \<and> (\<forall>x\<in>set c. \<not> isWhiteSpace x \<and> x \<noteq> 0x000A)"
proof -
  from normaliseColor_shape [OF assms]
  have r: "length c = 7" "hd c = 0x23" "list_all isUpperHexDigit (tl c)" by simp_all
  then obtain h t where c: "c = h # t" by (cases c) auto
  have "\<not> isWhiteSpace x \<and> x \<noteq> 0x000A" if "isUpperHexDigit x \<or> x = 0x23" for x
    using that by (auto simp: isUpperHexDigit_def isWhiteSpace_def word_le_nat_alt)
  with r c show ?thesis by (auto simp: list_all_iff)
qed

lemma splitLines_not_Nil: "splitLines s \<noteq> []"
  by (induction s rule: splitLines.induct) (auto simp: consFirst_def split: list.splits)

lemma trim_Cons_white: "isWhiteSpace c \<Longrightarrow> trim (c # l) = trim l"
  by (simp add: trim_def)

lemma countdownLines_Cons_white:
  assumes "isWhiteSpace c"
  shows "countdownLines (c # s) = countdownLines s"
proof (cases s)
  case Nil
  with assms show ?thesis by (simp add: countdownLines_def trim_Cons_white)
next
  case (Cons d ds)
  show ?thesis
  proof (cases "c = 0x000A")
    case True
    with Cons show ?thesis by (simp add: countdownLines_def)
  next
    case nl: False
    show ?thesis
    proof (cases "c = 0x000D \<and> d = 0x000A")
      case True
      then have "splitLines (c # d # ds) = [] # splitLines ds" by simp
      moreover from True have "splitLines (d # ds) = [] # splitLines ds"
        by (cases ds) simp_all
      ultimately show ?thesis using Cons by (simp add: countdownLines_def)
    next
      case False
      with nl have e: "splitLines (c # d # ds) = consFirst c (splitLines (d # ds))" by auto
      obtain l ls where s: "splitLines (d # ds) = l # ls"
        using splitLines_not_Nil [of "d # ds"] by (cases "splitLines (d # ds)") auto
      from assms show ?thesis
        unfolding Cons countdownLines_def e s by (simp add: consFirst_def trim_Cons_white)
    qed
  qed
qed

lemma countdownLines_blank_prefix:
  "\<forall>c\<in>set blank. isWhiteSpace c \<Longrightarrow> countdownLines (blank @ s) = countdownLines s"
  by (induction blank) (simp_all add: countdownLines_Cons_white)

lemma countdownLines_append_LF:
  assumes "0x000A \<notin> set a"
  shows "countdownLines (a @ 0x000A # rest)
           = (if trim a = [] then [] else [trim a]) @ countdownLines rest"
proof -
  from splitLines_append_LF_trim [OF assms, of rest] obtain a' where
    "splitLines (a @ 0x000A # rest) = a' # splitLines rest" and "trim a' = trim a"
    by blast
  then show ?thesis by (simp add: countdownLines_def)
qed

lemma countdownLines_single:
  assumes "0x000A \<notin> set a"
  shows "countdownLines a = (if trim a = [] then [] else [trim a])"
  by (simp add: countdownLines_def splitLines_no_LF [OF assms])

lemma countdownLines_first_line:
  assumes "\<forall>c\<in>set blank. isWhiteSpace c" and "0x000A \<notin> set line" and "trim line \<noteq> []"
    and "source = blank @ line \<or> source = blank @ line @ 0x000A # rest"
  shows "\<exists>others. countdownLines source = trim line # others"
proof -
  from assms(4) show ?thesis
  proof
    assume "source = blank @ line"
    with assms(1,2,3) show ?thesis
      by (simp add: countdownLines_blank_prefix countdownLines_single)
  next
    assume "source = blank @ line @ 0x000A # rest"
    with assms(1,2,3) show ?thesis
      by (simp add: countdownLines_blank_prefix countdownLines_append_LF)
  qed
qed

lemmas eval_defs =
  blockBody_def blockLines_def serializeCountdownLines_def parseCountdownSource_def
  countdownLines_def consFirst_def trim_def isWhiteSpace_def ascii_def parseTargetDate_def
  replaceFirstSpaces_def newDate_def itemAt_def orString_def normaliseColor_def matchColor_def
  isHexDigit_def toUpperCase_def

section \<open>Properties of the block renderer\<close>

lemma parseCountdownSource_Nil:
  "countdownLines source = [] \<Longrightarrow>
   parseCountdownSource dateParse source fl fc = \<lparr>target = None, label = fl, color = fc\<rparr>"
  by (simp add: parseCountdownSource_def)

lemma parseCountdownSource_Cons:
  "countdownLines source = line # rest \<Longrightarrow>
   parseCountdownSource dateParse source fl fc =
     \<lparr>target = parseTargetDate dateParse (Some line),
      label = trim (orString (itemAt rest 0) fl),
      color = (case normaliseColor (itemAt rest 1) of None \<Rightarrow> fc | Some c \<Rightarrow> c)\<rparr>"
  by (simp add: parseCountdownSource_def itemAt_def)

lemma countdownLines_not_a_date:
  "countdownLines (ascii ''not-a-date'') = [ascii ''not-a-date'']"
  by (simp add: countdownLines_def consFirst_def trim_def isWhiteSpace_def ascii_def)

lemma parseTargetDate_not_a_date:
  "parseTargetDate dateParse (Some (ascii ''not-a-date'')) =
     (case dateParse (ascii ''not-a-date'') of None \<Rightarrow> None | Some ts \<Rightarrow> newDate ts)"
  by (simp add: parseTargetDate_def replaceFirstSpaces_def trim_def isWhiteSpace_def ascii_def)

text \<open>
  Claim C7: a body that is nothing but white space, so that it has no non-empty line,
  renders the missing-target message. When the body is a blank prefix, then a line that
  is not blank, then either its end or a line feed and the rest, this line is its first
  non-empty line: the invalid-target message is rendered when the line, trimmed, does
  not parse as a date, and the view is mounted on the parsed instant when it does. So
  the empty body renders the missing-target message and the sole line \<open>not-a-date\<close> the
  invalid-target message; the two messages differ in both tables.
\<close>

theorem renderCountdownBlock_messages:
  "((\<forall>c\<in>set source. isWhiteSpace c) \<longrightarrow>
      renderCountdownBlock dateParse strings settings source
        = Paragraph (blockMissingTarget strings))
   \<and> (\<forall>blank line rest.
        (\<forall>c\<in>set blank. isWhiteSpace c) \<and> 0x000A \<notin> set line \<and> trim line \<noteq> []
        \<and> (source = blank @ line \<or> source = blank @ line @ 0x000A # rest)
        \<and> parseTargetDate dateParse (Some (trim line)) = None \<longrightarrow>
        renderCountdownBlock dateParse strings settings source
          = Paragraph (blockInvalidTarget strings))
   \<and> (\<forall>blank line rest t.
        (\<forall>c\<in>set blank. isWhiteSpace c) \<and> 0x000A \<notin> set line \<and> trim line \<noteq> []
        \<and> (source = blank @ line \<or> source = blank @ line @ 0x000A # rest)
        \<and> parseTargetDate dateParse (Some (trim line)) = Some t \<longrightarrow>
        (\<exists>lbl col. renderCountdownBlock dateParse strings settings source
           = Mounted \<lparr>target = t, label = lbl, color = col\<rparr>))
   \<and> renderCountdownBlock dateParse strings settings [] = Paragraph (blockMissingTarget strings)
   \<and> (dateParse (ascii ''not-a-date'') = None \<longrightarrow>
        renderCountdownBlock dateParse strings settings (ascii ''not-a-date'')
          = Paragraph (blockInvalidTarget strings))
   \<and> (strings = enStrings \<or> strings = zhStrings \<longrightarrow>
        blockMissingTarget strings \<noteq> blockInvalidTarget strings)"
proof -
  have missing: "renderCountdownBlock dateParse strings settings src
      = Paragraph (blockMissingTarget strings)" if "\<forall>c\<in>set src. isWhiteSpace c" for src
  proof -
    from that have t: "trim src = []" by (simp add: trim_eq_Nil_iff)
    then have "countdownLines src = []" by (simp add: countdownLines_Nil_iff)
    with t show ?thesis
      by (simp add: renderCountdownBlock_def parseCountdownSource_Nil)
  qed
  have first: "\<exists>others. countdownLines source = trim line # others"
    if "\<forall>c\<in>set blank. isWhiteSpace c" "0x000A \<notin> set line" "trim line \<noteq> []"
      "source = blank @ line \<or> source = blank @ line @ 0x000A # rest"
    for blank line rest
    using that by (rule countdownLines_first_line)
  have invalid: "renderCountdownBlock dateParse strings settings source
      = Paragraph (blockInvalidTarget strings)"
    if "\<forall>c\<in>set blank. isWhiteSpace c" "0x000A \<notin> set line" "trim line \<noteq> []"
      "source = blank @ line \<or> source = blank @ line @ 0x000A # rest"
      "parseTargetDate dateParse (Some (trim line)) = None"
    for blank line rest
  proof -
    from first [OF that(1-4)] obtain others where
      l: "countdownLines source = trim line # others" ..
    then have "trim source \<noteq> []" by (simp add: countdownLines_Nil_iff [symmetric])
    with l that(5) show ?thesis
      by (simp add: renderCountdownBlock_def parseCountdownSource_Cons)
  qed
  have mounted: "\<exists>lbl col. renderCountdownBlock dateParse strings settings source
           = Mounted \<lparr>target = t, label = lbl, color = col\<rparr>"
    if "\<forall>c\<in>set blank. isWhiteSpace c" "0x000A \<notin> set line" "trim line \<noteq> []"
      "source = blank @ line \<or> source = blank @ line @ 0x000A # rest"
      "parseTargetDate dateParse (Some (trim line)) = Some t"
    for blank line rest t
  proof -
    from first [OF that(1-4)] obtain others where
      l: "countdownLines source = trim line # others" ..
    with that(5) show ?thesis
      by (simp add: renderCountdownBlock_def parseCountdownSource_Cons)
  qed
  have empty: "renderCountdownBlock dateParse strings settings []
      = Paragraph (blockMissingTarget strings)"
    by (rule missing) simp
  have distinct: "blockMissingTarget strings \<noteq> blockInvalidTarget strings"
    if "strings = enStrings \<or> strings = zhStrings"
    using that by (auto simp: enStrings_def zhStrings_def ascii_def)
  have nad: "renderCountdownBlock dateParse strings settings (ascii ''not-a-date'')
      = Paragraph (blockInvalidTarget strings)" if "dateParse (ascii ''not-a-date'') = None"
  proof -
    have l: "countdownLines (ascii ''not-a-date'') = [ascii ''not-a-date'']"
      by (rule countdownLines_not_a_date)
    then have "trim (ascii ''not-a-date'') \<noteq> []"
      by (simp add: countdownLines_Nil_iff [symmetric])
    with l that show ?thesis
      by (simp add: renderCountdownBlock_def parseCountdownSource_Cons
          parseTargetDate_not_a_date)
  qed
  from missing [of source] invalid mounted empty distinct nad show ?thesis by blast
qed

theorem renderCountdownBlock_messages_witness:
  "renderCountdownBlock
     (\<lambda>s. if s = ascii ''2030-01-01T00:00:00.000Z'' then Some 1893456000000 else None)
     enStrings DEFAULT_SETTINGS
     (([0x000A] @ ascii ''  '' @ [0x000D, 0x000A] @ ascii '' '')
        @ (ascii ''not-a-date '' @ [0x000D])
        @ 0x000A # (ascii ''2030-01-01T00:00:00.000Z'' @ [0x000A] @ ascii ''Launch''))
   = Paragraph (ascii ''Invalid countdown target date.'')
   \<and> renderCountdownBlock
       (\<lambda>s. if s = ascii ''2030-01-01T00:00:00.000Z'' then Some 1893456000000 else None)
       enStrings DEFAULT_SETTINGS (ascii ''  '' @ [0x000D, 0x000A, 0x000A, 0x0009])
     = Paragraph (ascii ''Countdown block needs a target date.'')
   \<and> renderCountdownBlock
       (\<lambda>s. if s = ascii ''2030-01-01T00:00:00.000Z'' then Some 1893456000000 else None)
       enStrings DEFAULT_SETTINGS
       (([0x000A] @ ascii ''  '')
          @ (ascii ''2030-01-01T00:00:00.000Z'' @ [0x000D])
          @ 0x000A # (ascii ''not-a-date'' @ [0x000A] @ ascii ''#2e90fa''))
     = Mounted \<lparr>target = 1893456000000, label = ascii ''not-a-date'',
                 color = ascii ''#2E90FA''\<rparr>"
proof -
  let ?dp = "\<lambda>s. if s = ascii ''2030-01-01T00:00:00.000Z'' then Some (1893456000000::int)
                  else None"
  let ?blank = "[0x000A] @ ascii ''  '' @ [0x000D, 0x000A] @ ascii '' ''"
  let ?line = "ascii ''not-a-date '' @ [0x000D]"
  let ?rest = "ascii ''2030-01-01T00:00:00.000Z'' @ [0x000A] @ ascii ''Launch''"
  let ?white = "ascii ''  '' @ [0x000D, 0x000A, 0x000A, 0x0009]"
  have b: "\<forall>c\<in>set ?blank. isWhiteSpace c" by (simp add: ascii_def isWhiteSpace_def)
  have n: "0x000A \<notin> set ?line" by (simp add: ascii_def)
  have t: "trim ?line = ascii ''not-a-date''" by (simp add: ascii_def trim_def isWhiteSpace_def)
  then have t0: "trim ?line \<noteq> []" by (simp add: ascii_def)
  have p: "parseTargetDate ?dp (Some (trim ?line)) = None"
    unfolding t by (simp add: eval_defs)
  have w: "\<forall>c\<in>set ?white. isWhiteSpace c" by (simp add: ascii_def isWhiteSpace_def)
  from renderCountdownBlock_messages
         [of "?blank @ ?line @ 0x000A # ?rest" ?dp enStrings DEFAULT_SETTINGS] b n t0 p
  have 1: "renderCountdownBlock ?dp enStrings DEFAULT_SETTINGS (?blank @ ?line @ 0x000A # ?rest)
             = Paragraph (blockInvalidTarget enStrings)"
    by blast
  from renderCountdownBlock_messages [of ?white ?dp enStrings DEFAULT_SETTINGS] w
  have 2: "renderCountdownBlock ?dp enStrings DEFAULT_SETTINGS ?white
             = Paragraph (blockMissingTarget enStrings)"
    by blast
  have 3: "renderCountdownBlock ?dp enStrings DEFAULT_SETTINGS
       (([0x000A] @ ascii ''  '')
          @ (ascii ''2030-01-01T00:00:00.000Z'' @ [0x000D])
          @ 0x000A # (ascii ''not-a-date'' @ [0x000A] @ ascii ''#2e90fa''))
     = Mounted \<lparr>target = 1893456000000, label = ascii ''not-a-date'',
                 color = ascii ''#2E90FA''\<rparr>"
    by (simp add: renderCountdownBlock_def eval_defs)
  from 1 2 3 show ?thesis by (simp add: enStrings_def)
qed

section \<open>Properties of the text codec\<close>

lemma blockBody_blockLines:
  "blockBody (blockLines toISOString r) =
     toISOString (target r) @ 0x000A # (label r @ 0x000A # color r)"
  by (simp add: blockBody_def blockLines_def serializeCountdownLines_def)

lemma parseTargetDate_plain:
  assumes "s \<noteq> []" and "\<forall>c\<in>set s. \<not> isWhiteSpace c"
  shows "parseTargetDate dateParse (Some s) =
           (case dateParse s of None \<Rightarrow> None | Some ts \<Rightarrow> newDate ts)"
  using assms by (simp add: parseTargetDate_def trim_no_white replaceFirstSpaces_no_white)

text \<open>
  Claim C1, as the code has it: let \<open>r\<close> be a record whose target is a valid instant that
  the host's parser reads back from its ISO string (a non-empty string without white
  space), whose label contains no line feed and is not blank, and whose colour is
  normalised. Parsing the body of the block serialised from \<open>r\<close> gives the target of
  \<open>r\<close>, its label trimmed, and its colour, whatever the fallbacks are.
\<close>

theorem parse_serialize_roundtrip:
  assumes "dateParse (toISOString (target r)) = Some (target r)"
    and "\<bar>target r\<bar> \<le> 8640000000000000"
    and "toISOString (target r) \<noteq> []"
    and "\<forall>c\<in>set (toISOString (target r)). \<not> isWhiteSpace c"
    and "0x000A \<notin> set (label r)"
    and "trim (label r) \<noteq> []"
    and "normaliseColor (Some (color r)) = Some (color r)"
  shows "parseCountdownSource dateParse (blockBody (blockLines toISOString r)) fl fc
           = \<lparr>target = Some (target r), label = trim (label r), color = color r\<rparr>"
proof -
  define iso where "iso = toISOString (target r)"
  from assms(4) have isoLF: "0x000A \<notin> set iso"
    unfolding iso_def by (auto simp: isWhiteSpace_def)
  from normalised_no_white [OF assms(7)]
  have col: "color r \<noteq> []" "\<forall>x\<in>set (color r). \<not> isWhiteSpace x" "0x000A \<notin> set (color r)"
    by auto
  obtain iso' where
    1: "splitLines (iso @ 0x000A # (label r @ 0x000A # color r))
          = iso' # splitLines (label r @ 0x000A # color r)" and
    i: "trim iso' = trim iso"
    using splitLines_append_LF_trim [OF isoLF] by blast
  obtain lbl' where
    2: "splitLines (label r @ 0x000A # color r) = lbl' # splitLines (color r)" and
    l: "trim lbl' = trim (label r)"
    using splitLines_append_LF_trim [OF assms(5)] by blast
  have 3: "splitLines (color r) = [color r]"
    using col(3) by (rule splitLines_no_LF)
  have ti: "trim iso = iso"
    using assms(4) unfolding iso_def by (rule trim_no_white)
  have tc: "trim (color r) = color r"
    using col(2) by (rule trim_no_white)
  have lines: "countdownLines (blockBody (blockLines toISOString r))
                 = [iso, trim (label r), color r]"
    using assms(3,6) col(1)
    by (simp add: blockBody_blockLines countdownLines_def iso_def [symmetric] 1 2 3 i l ti tc)
  have t: "parseTargetDate dateParse (Some iso) = Some (target r)"
    using assms(1,2,3,4)
    by (simp add: iso_def parseTargetDate_plain newDate_def)
  from assms(6) have lb: "trim (orString (Some (trim (label r))) fl) = trim (label r)"
    by (simp add: orString_def trim_idem)
  show ?thesis
    by (simp add: parseCountdownSource_def lines itemAt_def t lb assms(7))
qed

theorem parse_serialize_roundtrip_witness:
  "parseCountdownSource
     (\<lambda>s. if s = ascii ''2030-01-01T00:00:00.000Z'' then Some 1893456000000 else None)
     (blockBody (blockLines (\<lambda>t. ascii ''2030-01-01T00:00:00.000Z'')
        \<lparr>target = 1893456000000, label = ascii '' Launch day'', color = ascii ''#2E90FA''\<rparr>))
     (ascii ''Countdown'') (ascii ''#F79009'')
   = \<lparr>target = Some 1893456000000, label = ascii ''Launch day'', color = ascii ''#2E90FA''\<rparr>"
proof -
  let ?iso = "ascii ''2030-01-01T00:00:00.000Z''"
  let ?dp = "\<lambda>s. if s = ?iso then Some (1893456000000::int) else None"
  let ?r = "\<lparr>target = 1893456000000::int, label = ascii '' Launch day'',
             color = ascii ''#2E90FA''\<rparr>"
  have 1: "?dp ((\<lambda>t. ?iso) (target ?r)) = Some (target ?r)" by simp
  have 2: "\<bar>target ?r\<bar> \<le> 8640000000000000" by simp
  have 3: "(\<lambda>t. ?iso) (target ?r) \<noteq> []" by (simp add: ascii_def)
  have 4: "\<forall>c\<in>set ((\<lambda>t. ?iso) (target ?r)). \<not> isWhiteSpace c"
    by (simp add: ascii_def isWhiteSpace_def)
  have 5: "0x000A \<notin> set (label ?r)" by (simp add: ascii_def)
  have 6: "trim (label ?r) \<noteq> []" by (simp add: ascii_def trim_def isWhiteSpace_def)
  have 7: "normaliseColor (Some (color ?r)) = Some (color ?r)"
    by (simp add: eval_defs)
  have 8: "trim (label ?r) = ascii ''Launch day''"
    by (simp add: ascii_def trim_def isWhiteSpace_def)
  from parse_serialize_roundtrip [of ?dp "\<lambda>t. ?iso" ?r, OF 1 2 3 4 5 6 7] 8
  show ?thesis by simp
qed

text \<open>
  Claim C1 as stated fails for a label that is not empty but blank: its line is dropped,
  the colour line is read as the label and the colour falls back to the default.
\<close>

theorem parse_serialize_blank_label_counterexample:
  "ascii '' '' \<noteq> []
   \<and> normaliseColor (Some (ascii ''#12B76A'')) = Some (ascii ''#12B76A'')
   \<and> parseCountdownSource
       (\<lambda>s. if s = ascii ''2030-01-01T00:00:00.000Z'' then Some 1893456000000 else None)
       (blockBody (blockLines (\<lambda>t. ascii ''2030-01-01T00:00:00.000Z'')
          \<lparr>target = 1893456000000, label = ascii '' '', color = ascii ''#12B76A''\<rparr>))
       (ascii ''Countdown'') (ascii ''#F79009'')
     = \<lparr>target = Some 1893456000000, label = ascii ''#12B76A'', color = ascii ''#F79009''\<rparr>"
  by (simp add: eval_defs)

lemma parseCountdownSource_after_third:
  assumes "0x000A \<notin> set l1" "0x000A \<notin> set l2" "0x000A \<notin> set l3"
    and "trim l1 \<noteq> []" "trim l2 \<noteq> []" "trim l3 \<noteq> []"
  shows "parseCountdownSource dateParse (l1 @ 0x000A # l2 @ 0x000A # l3 @ 0x000A # rest) fl fc
           = parseCountdownSource dateParse (l1 @ 0x000A # l2 @ 0x000A # l3) fl fc"
proof -
  have "countdownLines (l1 @ 0x000A # l2 @ 0x000A # l3 @ 0x000A # rest)
          = [trim l1, trim l2, trim l3] @ countdownLines rest"
    using assms by (simp add: countdownLines_append_LF)
  moreover have "countdownLines (l1 @ 0x000A # l2 @ 0x000A # l3) = [trim l1, trim l2, trim l3]"
    using assms by (simp add: countdownLines_append_LF countdownLines_single)
  ultimately show ?thesis by (simp add: parseCountdownSource_take)
qed

text \<open>
  Claim C10: the result of parsing is determined by the first three non-empty trimmed
  lines of the body. These lines are the pieces of the body between line feeds, trimmed,
  without the blank ones: none of them is empty or has white space at its ends, a blank
  prefix of the body changes nothing, a piece before a line feed contributes its trimmed
  text unless it is blank, and whatever follows the line feed after a third non-blank
  line is ignored. The label returned to the renderer, whose fallback is
  \<open>getDefaultLabel\<close> on one of the two tables, has no white space at its ends for every
  body; with any fallback it has none whenever the body has a non-empty line.
\<close>

theorem parseCountdownSource_first_three:
  "(take 3 (countdownLines source) = take 3 (countdownLines source') \<longrightarrow>
      parseCountdownSource dateParse source fl fc = parseCountdownSource dateParse source' fl fc)
   \<and> (\<forall>line\<in>set (countdownLines source). line \<noteq> [] \<and> trim line = line)
   \<and> (\<forall>blank. (\<forall>c\<in>set blank. isWhiteSpace c) \<longrightarrow>
         countdownLines (blank @ source) = countdownLines source)
   \<and> (\<forall>a rest. 0x000A \<notin> set a \<longrightarrow>
         countdownLines (a @ 0x000A # rest)
           = (if trim a = [] then [] else [trim a]) @ countdownLines rest)
   \<and> (0x000A \<notin> set source \<longrightarrow>
         countdownLines source = (if trim source = [] then [] else [trim source]))
   \<and> (\<forall>l1 l2 l3 rest.
         0x000A \<notin> set l1 \<and> 0x000A \<notin> set l2 \<and> 0x000A \<notin> set l3
         \<and> trim l1 \<noteq> [] \<and> trim l2 \<noteq> [] \<and> trim l3 \<noteq> [] \<longrightarrow>
         parseCountdownSource dateParse (l1 @ 0x000A # l2 @ 0x000A # l3 @ 0x000A # rest) fl fc
           = parseCountdownSource dateParse (l1 @ 0x000A # l2 @ 0x000A # l3) fl fc)
   \<and> (strings = enStrings \<or> strings = zhStrings \<longrightarrow>
        trim (label (parseCountdownSource dateParse source (getDefaultLabel strings settings) fc))
          = label (parseCountdownSource dateParse source (getDefaultLabel strings settings) fc))
   \<and> (countdownLines source \<noteq> [] \<longrightarrow>
        trim (label (parseCountdownSource dateParse source fl fc))
          = label (parseCountdownSource dateParse source fl fc))"
proof -
  have a: "take 3 (countdownLines source) = take 3 (countdownLines source') \<longrightarrow>
      parseCountdownSource dateParse source fl fc = parseCountdownSource dateParse source' fl fc"
    by (simp add: parseCountdownSource_take)
  have b: "\<forall>line\<in>set (countdownLines source). line \<noteq> [] \<and> trim line = line"
    using countdownLines_trimmed by blast
  have c: "\<forall>blank. (\<forall>c\<in>set blank. isWhiteSpace c) \<longrightarrow>
         countdownLines (blank @ source) = countdownLines source"
    by (simp add: countdownLines_blank_prefix)
  have d: "\<forall>a rest. 0x000A \<notin> set a \<longrightarrow>
         countdownLines (a @ 0x000A # rest)
           = (if trim a = [] then [] else [trim a]) @ countdownLines rest"
    using countdownLines_append_LF by blast
  have e: "0x000A \<notin> set source \<longrightarrow>
         countdownLines source = (if trim source = [] then [] else [trim source])"
    using countdownLines_single [of source] by blast
  have f: "\<forall>l1 l2 l3 rest.
         0x000A \<notin> set l1 \<and> 0x000A \<notin> set l2 \<and> 0x000A \<notin> set l3
         \<and> trim l1 \<noteq> [] \<and> trim l2 \<noteq> [] \<and> trim l3 \<noteq> [] \<longrightarrow>
         parseCountdownSource dateParse (l1 @ 0x000A # l2 @ 0x000A # l3 @ 0x000A # rest) fl fc
           = parseCountdownSource dateParse (l1 @ 0x000A # l2 @ 0x000A # l3) fl fc"
    using parseCountdownSource_after_third by blast
  have g: "strings = enStrings \<or> strings = zhStrings \<longrightarrow>
        trim (label (parseCountdownSource dateParse source (getDefaultLabel strings settings) fc))
          = label (parseCountdownSource dateParse source (getDefaultLabel strings settings) fc)"
  proof
    assume s: "strings = enStrings \<or> strings = zhStrings"
    show "trim (label (parseCountdownSource dateParse source
                         (getDefaultLabel strings settings) fc))
          = label (parseCountdownSource dateParse source (getDefaultLabel strings settings) fc)"
    proof (cases "countdownLines source = []")
      case True
      with s show ?thesis by (simp add: parseCountdownSource_Nil getDefaultLabel_trimmed)
    next
      case False
      then show ?thesis by (rule parseCountdownSource_label_trimmed)
    qed
  qed
  have h: "countdownLines source \<noteq> [] \<longrightarrow>
        trim (label (parseCountdownSource dateParse source fl fc))
          = label (parseCountdownSource dateParse source fl fc)"
    using parseCountdownSource_label_trimmed [of source dateParse fl fc] by blast
  from a b c d e f g h show ?thesis by (intro conjI)
qed

theorem parseCountdownSource_first_three_witness:
  "take 3 (countdownLines (ascii ''2030-01-01'' @ [0x000D, 0x000A, 0x000A] @ ascii ''  Launch ''
      @ [0x000A] @ ascii ''#2e90fa'' @ [0x000A] @ ascii ''extra'' @ [0x000A] @ ascii ''more''))
     = take 3 (countdownLines (ascii ''2030-01-01'' @ [0x000A] @ ascii ''Launch'' @ [0x000A]
         @ ascii ''#2e90fa''))
   \<and> parseCountdownSource (\<lambda>s. if s = ascii ''2030-01-01'' then Some 1893456000000 else None)
       (ascii ''2030-01-01'' @ [0x000D, 0x000A, 0x000A] @ ascii ''  Launch ''
          @ [0x000A] @ ascii ''#2e90fa'' @ [0x000A] @ ascii ''extra'' @ [0x000A] @ ascii ''more'')
       (ascii ''Countdown'') (ascii ''#F79009'')
     = \<lparr>target = Some 1893456000000, label = ascii ''Launch'', color = ascii ''#2E90FA''\<rparr>"
proof -
  let ?dp = "\<lambda>s. if s = ascii ''2030-01-01'' then Some (1893456000000::int) else None"
  let ?long = "ascii ''2030-01-01'' @ [0x000D, 0x000A, 0x000A] @ ascii ''  Launch ''
      @ [0x000A] @ ascii ''#2e90fa'' @ [0x000A] @ ascii ''extra'' @ [0x000A] @ ascii ''more''"
  let ?short = "ascii ''2030-01-01'' @ [0x000A] @ ascii ''Launch'' @ [0x000A] @ ascii ''#2e90fa''"
  have l: "countdownLines ?long
      = [ascii ''2030-01-01'', ascii ''Launch'', ascii ''#2e90fa'', ascii ''extra'', ascii ''more'']"
    by (simp add: countdownLines_def consFirst_def trim_def isWhiteSpace_def ascii_def)
  have s: "countdownLines ?short = [ascii ''2030-01-01'', ascii ''Launch'', ascii ''#2e90fa'']"
    by (simp add: countdownLines_def consFirst_def trim_def isWhiteSpace_def ascii_def)
  from l s have h: "take 3 (countdownLines ?long) = take 3 (countdownLines ?short)" by simp
  have v: "parseCountdownSource ?dp ?short (ascii ''Countdown'') (ascii ''#F79009'')
      = \<lparr>target = Some 1893456000000, label = ascii ''Launch'', color = ascii ''#2E90FA''\<rparr>"
    by (simp add: eval_defs)
  from parseCountdownSource_first_three
         [of ?long ?short ?dp "ascii ''Countdown''" "ascii ''#F79009''" enStrings] h
  have "parseCountdownSource ?dp ?long (ascii ''Countdown'') (ascii ''#F79009'')
      = parseCountdownSource ?dp ?short (ascii ''Countdown'') (ascii ''#F79009'')"
    by blast
  with h v show ?thesis by simp
qed

section \<open>Properties of the number formatting\<close>

lemma digit_unit: "d < 10 \<Longrightarrow> unat ((0x30 + of_nat d :: codeunit) - 0x30) = d"
  by (simp add: unat_of_nat)

lemma digit_isDecimalDigit: "d < 10 \<Longrightarrow> isDecimalDigit (0x30 + of_nat d)"
  unfolding isDecimalDigit_def
  by (simp add: word_le_nat_alt unat_word_ariths unat_of_nat)

lemma decimalValue_snoc: "decimalValue (s @ [c]) = 10 * decimalValue s + unat (c - 0x30)"
  by (simp add: decimalValue_def)

lemma decimalValue_zero_Cons: "decimalValue (0x30 # s) = decimalValue s"
  by (simp add: decimalValue_def)

lemma decimalValue_digitsOf: "decimalValue (digitsOf n) = n"
proof (induction n rule: digitsOf.induct)
  case (1 n)
  show ?case
  proof (cases "n < 10")
    case True
    then show ?thesis
      by (subst digitsOf.simps) (simp add: decimalValue_def unat_of_nat)
  next
    case False
    with 1 have "decimalValue (digitsOf (n div 10)) = n div 10" by simp
    with False show ?thesis
      by (subst digitsOf.simps) (simp add: decimalValue_snoc unat_of_nat)
  qed
qed

lemma digitsOf_digits: "list_all isDecimalDigit (digitsOf n)"
proof (induction n rule: digitsOf.induct)
  case (1 n)
  show ?case
  proof (cases "n < 10")
    case True
    then show ?thesis
      by (subst digitsOf.simps) (simp add: digit_isDecimalDigit)
  next
    case False
    with 1 have "list_all isDecimalDigit (digitsOf (n div 10))" by simp
    with False show ?thesis
      by (subst digitsOf.simps) (simp add: digit_isDecimalDigit)
  qed
qed

lemma digitsOf_length: "1 \<le> length (digitsOf n) \<and> (n < 100 \<longrightarrow> length (digitsOf n) \<le> 2)"
proof (cases "n < 10")
  case True
  then show ?thesis by (subst (1 2) digitsOf.simps) simp
next
  case False
  show ?thesis
  proof (cases "n < 100")
    case True
    then have "n div 10 < 10" by simp
    then have "digitsOf (n div 10) = [0x30 + of_nat (n div 10)]"
      by (subst digitsOf.simps) simp
    with False show ?thesis by (subst (1 2) digitsOf.simps) simp
  next
    case big: False
    with False show ?thesis by (subst digitsOf.simps) simp
  qed
qed

lemma pad_nonneg:
  assumes "0 \<le> x"
  shows "decimalValue (pad x) = nat x" and "2 \<le> length (pad x)"
    and "list_all isDecimalDigit (pad x)" and "x < 100 \<Longrightarrow> length (pad x) = 2"
proof -
  define ds where "ds = digitsOf (nat x)"
  from assms have n: "numberToString x = ds" by (simp add: numberToString_def ds_def)
  have len: "1 \<le> length ds"
    using digitsOf_length [of "nat x"] by (simp add: ds_def)
  have dv: "decimalValue ds = nat x" and dg: "list_all isDecimalDigit ds"
    by (simp_all add: ds_def decimalValue_digitsOf digitsOf_digits)
  have p: "pad x = (if 2 \<le> length ds then ds else 0x30 # ds)"
  proof (cases "2 \<le> length ds")
    case True
    then show ?thesis by (simp add: pad_def padStart_def n)
  next
    case False
    with len have "length ds = 1" by simp
    then show ?thesis by (simp add: pad_def padStart_def n ascii_def)
  qed
  from p dv show "decimalValue (pad x) = nat x" by (simp add: decimalValue_zero_Cons)
  from p len show "2 \<le> length (pad x)" by simp
  from p dg show "list_all isDecimalDigit (pad x)" by (simp add: isDecimalDigit_def)
  assume "x < 100"
  with assms have "length ds \<le> 2" using digitsOf_length [of "nat x"] by (simp add: ds_def)
  with p len show "length (pad x) = 2" by auto
qed


lemma pad_1: "pad 1 = ascii ''01''"
  by (simp add: pad_def padStart_def numberToString_def digitsOf.simps [of "Suc 0"] ascii_def)

section \<open>Properties of the double precision arithmetic\<close>

lemma exponentOf_bounds:
  assumes "x \<noteq> 0"
  shows "power_int 2 (exponentOf x) \<le> \<bar>x\<bar>" and "\<bar>x\<bar> < power_int 2 (exponentOf x + 1)"
proof -
  define a where "a = \<bar>x\<bar>"
  from assms have a: "0 < a" by (simp add: a_def)
  have "power_int 2 (exponentOf x) \<le> a \<and> a < power_int 2 (exponentOf x + 1)"
  proof (cases "1 \<le> a")
    case True
    define f where "f = \<lfloor>a\<rfloor>"
    from True have f: "1 \<le> f" by (simp add: f_def le_floor_iff)
    then have f0: "0 < f" by simp
    define b where "b = bitlen f"
    from bitlen_bounds [OF f0] have lo: "2 ^ nat (b - 1) \<le> f" and hi: "f < 2 ^ nat b"
      by (simp_all add: b_def)
    from hi f have b1: "1 \<le> b"
      by (cases "b \<le> 0") auto
    from True have e: "exponentOf x = b - 1"
      by (simp add: exponentOf_def a_def [symmetric] f_def b_def)
    have "(of_int f :: rat) \<le> a" unfolding f_def by linarith
    moreover from lo have "(2::rat) ^ nat (b - 1) \<le> of_int f"
      using of_int_le_iff [of "2 ^ nat (b - 1)" f, where ?'a = rat] by simp
    ultimately have 1: "(2::rat) ^ nat (b - 1) \<le> a" by linarith
    have "a < of_int f + 1" unfolding f_def by linarith
    moreover from hi have "f + 1 \<le> 2 ^ nat b" by simp
    then have "(of_int f :: rat) + 1 \<le> 2 ^ nat b"
      using of_int_le_iff [of "f + 1" "2 ^ nat b", where ?'a = rat] by simp
    ultimately have 2: "a < (2::rat) ^ nat b" by linarith
    from b1 have "power_int (2::rat) (b - 1) = 2 ^ nat (b - 1)"
      and "power_int (2::rat) (b - 1 + 1) = 2 ^ nat b"
      by (simp_all add: power_int_def)
    with 1 2 e show ?thesis by simp
  next
    case False
    define y where "y = 1 / a"
    from False a have y1: "1 < y" by (simp add: y_def)
    define g where "g = \<lceil>y\<rceil> - 1"
    from y1 have g1: "1 \<le> g" unfolding g_def by linarith
    then have g0: "0 < g" by simp
    define b where "b = bitlen g"
    from bitlen_bounds [OF g0] have lo: "2 ^ nat (b - 1) \<le> g" and hi: "g < 2 ^ nat b"
      by (simp_all add: b_def)
    from hi g1 have b1: "1 \<le> b"
      by (cases "b \<le> 0") auto
    from False have e: "exponentOf x = - b"
      by (simp add: exponentOf_def a_def [symmetric] y_def [symmetric] g_def b_def)
    have gy: "(of_int g :: rat) < y" unfolding g_def by linarith
    have yg: "y \<le> of_int g + 1" unfolding g_def by simp
    from hi have "g + 1 \<le> 2 ^ nat b" by simp
    then have "(of_int g :: rat) + 1 \<le> 2 ^ nat b"
      using of_int_le_iff [of "g + 1" "2 ^ nat b", where ?'a = rat] by simp
    with yg have up: "y \<le> (2::rat) ^ nat b" by linarith
    from lo have "(2::rat) ^ nat (b - 1) \<le> of_int g"
      using of_int_le_iff [of "2 ^ nat (b - 1)" g, where ?'a = rat] by simp
    with gy have dn: "(2::rat) ^ nat (b - 1) < y" by linarith
    from up a have 1: "1 / (2::rat) ^ nat b \<le> a"
      by (simp add: y_def field_simps)
    from dn a have 2: "a < 1 / (2::rat) ^ nat (b - 1)"
      by (simp add: y_def field_simps)
    from b1 have p1: "power_int (2::rat) (- b) = 1 / 2 ^ nat b"
      by (simp add: power_int_def field_simps)
    from b1 have p2: "power_int (2::rat) (- b + 1) = 1 / 2 ^ nat (b - 1)"
      by (cases "b = 1") (simp_all add: power_int_def field_simps nat_diff_distrib)
    from 1 2 e p1 p2 show ?thesis by simp
  qed
  then show "power_int 2 (exponentOf x) \<le> \<bar>x\<bar>" and "\<bar>x\<bar> < power_int 2 (exponentOf x + 1)"
    by (simp_all add: a_def)
qed

lemma roundHalfEven_floor: "\<lfloor>y\<rfloor> \<le> roundHalfEven y \<and> roundHalfEven y \<le> \<lfloor>y\<rfloor> + 1"
  by (simp add: roundHalfEven_def Let_def)

lemma roundHalfEven_near:
  "of_int (roundHalfEven y) - y \<le> 1 / 2" and "y - of_int (roundHalfEven y) \<le> 1 / 2"
proof -
  define f where "f = \<lfloor>y\<rfloor>"
  have f: "of_int f \<le> y" "y < of_int f + 1" unfolding f_def by linarith+
  have r: "roundHalfEven y =
      (if y - of_int f < 1 / 2 then f else if 1 / 2 < y - of_int f then f + 1
       else if even f then f else f + 1)"
    by (simp add: roundHalfEven_def Let_def f_def)
  show "of_int (roundHalfEven y) - y \<le> 1 / 2"
    unfolding r using f by auto
  show "y - of_int (roundHalfEven y) \<le> 1 / 2"
    unfolding r using f by auto
qed

lemma roundHalfEven_of_int [simp]: "roundHalfEven (of_int n) = n"
  by (simp add: roundHalfEven_def)

lemma scaled_bounds:
  assumes "x \<noteq> 0"
  shows "2 ^ 52 \<le> \<bar>x\<bar> / power_int 2 (exponentOf x - 52)"
proof -
  have u: "power_int (2::rat) (exponentOf x - 52) = power_int 2 (exponentOf x) / 2 ^ 52"
    by (simp add: power_int_diff)
  from exponentOf_bounds(1) [OF assms] have "power_int 2 (exponentOf x) \<le> \<bar>x\<bar>" .
  moreover have "0 < power_int (2::rat) (exponentOf x)" by simp
  ultimately have "1 \<le> \<bar>x\<bar> / power_int 2 (exponentOf x)"
    by (simp add: le_divide_eq)
  then have "2 ^ 52 * 1 \<le> 2 ^ 52 * (\<bar>x\<bar> / power_int 2 (exponentOf x))"
    by (rule mult_left_mono) simp
  then show ?thesis unfolding u by (simp add: field_simps)
qed

lemma roundToDouble_sign:
  "(0 < roundToDouble x \<longleftrightarrow> 0 < x) \<and> (roundToDouble x < 0 \<longleftrightarrow> x < 0)"
proof (cases "x = 0")
  case True
  then show ?thesis by (simp add: roundToDouble_def)
next
  case False
  define u where "u = power_int (2::rat) (exponentOf x - 52)"
  have u: "0 < u" by (simp add: u_def)
  define m where "m = roundHalfEven (x / u)"
  have r: "roundToDouble x = of_int m * u"
    using False by (simp add: roundToDouble_def Let_def u_def m_def)
  from scaled_bounds [OF False] have s: "2 ^ 52 \<le> \<bar>x\<bar> / u" by (simp add: u_def)
  show ?thesis
  proof (cases "0 < x")
    case True
    with s have "1 \<le> x / u" by simp
    then have "1 \<le> \<lfloor>x / u\<rfloor>" by (simp add: le_floor_iff)
    with roundHalfEven_floor [of "x / u"] have "1 \<le> m" unfolding m_def by linarith
    then have "0 < (of_int m :: rat)" by simp
    with u have "0 < roundToDouble x" unfolding r by (simp add: zero_less_mult_iff)
    with True show ?thesis by simp
  next
    case neg: False
    with False have x: "x < 0" by simp
    with s have "x / u \<le> - 2" by (simp add: abs_if)
    then have "\<lfloor>x / u\<rfloor> \<le> - 2" by (simp add: floor_le_iff)
    with roundHalfEven_floor [of "x / u"] have "m \<le> - 1" unfolding m_def by linarith
    then have "(of_int m :: rat) < 0" by simp
    with u have "roundToDouble x < 0" unfolding r by (simp add: mult_less_0_iff)
    with x show ?thesis by simp
  qed
qed

lemma exponentOf_le:
  assumes "x \<noteq> 0" and "\<bar>x\<bar> < 2 ^ 53"
  shows "exponentOf x \<le> 52"
proof (rule ccontr)
  assume "\<not> exponentOf x \<le> 52"
  then have "53 \<le> exponentOf x" by simp
  then have "power_int (2::rat) 53 \<le> power_int 2 (exponentOf x)"
    by (rule power_int_increasing) simp
  with exponentOf_bounds(1) [OF assms(1)] assms(2) show False by simp
qed

text \<open>The unit in the last place is 1 / P for a power of two P when x is below 2^53.\<close>

lemma ulp_inverse:
  assumes "x \<noteq> 0" and "\<bar>x\<bar> < 2 ^ 53"
  obtains j where "power_int (2::rat) (exponentOf x - 52) = 1 / 2 ^ j"
proof -
  from exponentOf_le [OF assms] have "exponentOf x - 52 \<le> 0" by simp
  then have "power_int (2::rat) (exponentOf x - 52) = 1 / 2 ^ nat (52 - exponentOf x)"
    by (cases "exponentOf x = 52") (simp_all add: power_int_def field_simps)
  then show ?thesis by (rule that)
qed

lemma roundToDouble_of_int:
  assumes "\<bar>d\<bar> < 2 ^ 53"
  shows "roundToDouble (of_int d) = of_int d"
proof (cases "d = 0")
  case True
  then show ?thesis by (simp add: roundToDouble_def)
next
  case False
  then have x: "(of_int d :: rat) \<noteq> 0" by simp
  from assms have "\<bar>of_int d :: rat\<bar> < of_int (2 ^ 53)"
    by (simp only: of_int_abs [symmetric] of_int_less_iff)
  then have b: "\<bar>of_int d :: rat\<bar> < 2 ^ 53" by simp
  from ulp_inverse [OF x b] obtain j where
    u: "power_int (2::rat) (exponentOf (of_int d) - 52) = 1 / 2 ^ j" .
  have "of_int d / (1 / 2 ^ j) = (of_int (d * 2 ^ j) :: rat)" by simp
  then have "roundHalfEven (of_int d / (1 / 2 ^ j)) = d * 2 ^ j"
    by (simp only: roundHalfEven_of_int)
  with x show ?thesis by (simp add: roundToDouble_def Let_def u)
qed

lemma div_bounds:
  fixes n D :: int
  assumes "0 < D"
  shows "n div D * D \<le> n" and "n < (n div D + 1) * D"
proof -
  have e: "n div D * D + n mod D = n" by (rule div_mult_mod_eq)
  from assms have "0 \<le> n mod D" and "n mod D < D" by simp_all
  with e show "n div D * D \<le> n" by linarith
  have "(n div D + 1) * D = n div D * D + D" by (simp add: algebra_simps)
  with e \<open>n mod D < D\<close> show "n < (n div D + 1) * D" by linarith
qed

lemma quotient_le:
  fixes n D :: int
  assumes "0 \<le> n" and "0 < D"
  shows "(of_int n :: rat) / of_int D \<le> of_int n"
proof -
  from assms have "(of_int n :: rat) / of_int D \<le> of_int n / 1"
    by (intro divide_left_mono) simp_all
  then show ?thesis by simp
qed

lemma floor_roundToDouble_div:
  assumes n0: "0 \<le> n" and n53: "n < 2 ^ 53" and D: "0 < D"
  shows "\<lfloor>roundToDouble (of_int n / of_int D)\<rfloor> = n div D"
proof (cases "n = 0")
  case True
  then show ?thesis by (simp add: roundToDouble_def)
next
  case False
  with n0 have np: "0 < n" by simp
  define q :: rat where "q = of_int n / of_int D"
  define k where "k = n div D"
  from np D have q0: "0 < q" by (simp add: q_def)
  then have qn: "q \<noteq> 0" by simp
  from quotient_le [OF n0 D] have "q \<le> of_int n" by (simp add: q_def)
  moreover from n53 have "(of_int n :: rat) < 2 ^ 53"
    using of_int_less_iff [of n "2 ^ 53", where ?'a = rat] by simp
  ultimately have "\<bar>q\<bar> < 2 ^ 53" using q0 by linarith
  from ulp_inverse [OF qn this] obtain j where
    u: "power_int (2::rat) (exponentOf q - 52) = 1 / 2 ^ j" .
  define P :: int where "P = 2 ^ j"
  have P: "0 < P" by (simp add: P_def)
  have Pq: "(2::rat) ^ j = of_int P" by (simp add: P_def)
  have Pr: "0 < (of_int P :: rat)" using P by simp
  have Dr: "0 < (of_int D :: rat)" using D by simp
  define y where "y = q * of_int P"
  define m where "m = roundHalfEven y"
  have r: "roundToDouble q = of_int m / of_int P"
    using qn by (simp add: roundToDouble_def Let_def u Pq m_def y_def)
  from scaled_bounds [OF qn] q0 have big: "2 ^ 52 \<le> y"
    by (simp add: u Pq y_def)
  have yD: "y * of_int D = of_int (n * P)"
    using D by (simp add: y_def q_def)
  from div_bounds [OF D, of n] have kD: "k * D \<le> n" and nk: "n < (k + 1) * D"
    by (simp_all add: k_def)
  \<comment> \<open>the rounded significand is at least k * P\<close>
  from kD have "(of_int (k * D) :: rat) \<le> of_int n" by (simp only: of_int_le_iff)
  then have "(of_int k :: rat) * of_int D \<le> of_int n" by simp
  with Dr have "of_int k \<le> q" by (simp add: q_def le_divide_eq)
  with Pr have "of_int k * of_int P \<le> y" unfolding y_def by (simp add: mult_right_mono)
  then have "(of_int (k * P) :: rat) \<le> y" by simp
  then have "k * P \<le> \<lfloor>y\<rfloor>" by (simp only: le_floor_iff)
  with roundHalfEven_floor [of y] have lo: "k * P \<le> m" unfolding m_def by linarith
  \<comment> \<open>and below (k + 1) * P\<close>
  have hi: "m < (k + 1) * P"
  proof (rule ccontr)
    assume "\<not> m < (k + 1) * P"
    then have "(k + 1) * P \<le> m" by simp
    then have "(of_int ((k + 1) * P) :: rat) \<le> of_int m" by (simp only: of_int_le_iff)
    with roundHalfEven_near(1) [of y] have "of_int ((k + 1) * P) - 1 / 2 \<le> y"
      unfolding m_def by linarith
    with Dr have "(of_int ((k + 1) * P) - 1 / 2) * of_int D \<le> y * of_int D"
      by (simp add: mult_right_mono)
    then have "(of_int (2 * ((k + 1) * P) * D - D) :: rat) \<le> of_int (2 * (n * P))"
      unfolding yD by (simp add: algebra_simps)
    then have 1: "2 * ((k + 1) * P) * D - D \<le> 2 * (n * P)" by (simp only: of_int_le_iff)
    from nk have "n + 1 \<le> (k + 1) * D" by simp
    with P have "(n + 1) * P \<le> (k + 1) * D * P" by (simp add: mult_right_mono)
    then have 2: "2 * (n * P) + 2 * P \<le> 2 * ((k + 1) * P) * D" by (simp add: algebra_simps)
    from 1 2 have DP: "2 * P \<le> D" by linarith
    from big Dr have "2 ^ 52 * of_int D \<le> y * of_int D" by (simp add: mult_right_mono)
    then have "(of_int (2 ^ 52 * D) :: rat) \<le> of_int (n * P)" unfolding yD by simp
    then have 3: "2 ^ 52 * D \<le> n * P" by (simp only: of_int_le_iff)
    from DP have "(2 ^ 52 :: int) * (2 * P) \<le> 2 ^ 52 * D" by (simp add: mult_left_mono)
    with 3 have "2 ^ 53 * P \<le> n * P" by simp
    with P have "2 ^ 53 \<le> n" by (simp only: mult_le_cancel_right)
    with n53 show False by simp
  qed
  from lo Pr have a: "of_int k \<le> (of_int m :: rat) / of_int P"
    using of_int_le_iff [of "k * P" m, where ?'a = rat] by (simp add: le_divide_eq)
  from hi Pr have b: "(of_int m :: rat) / of_int P < of_int k + 1"
    using of_int_less_iff [of m "(k + 1) * P", where ?'a = rat] by (simp add: divide_less_eq)
  from a b have "\<lfloor>(of_int m :: rat) / of_int P\<rfloor> = k" by (rule floor_unique)
  then show ?thesis by (simp add: r q_def [symmetric] k_def)
qed

section \<open>Properties of the countdown view\<close>

lemma clearOwnInterval_fields [simp]:
  "valueEls (clearOwnInterval v) = valueEls v"
  "expired (clearOwnInterval v) = expired v"
  "target (clearOwnInterval v) = target v"
  by (simp_all add: clearOwnInterval_def split: option.splits)

text \<open>The arithmetic of a tick on integers, exact while the difference is below 2^53.\<close>

lemma roundToDouble_nonpos: "roundToDouble x \<le> 0 \<longleftrightarrow> x \<le> 0"
  using roundToDouble_sign [of x] by linarith

lemma tick_diffMs_sign:
  "roundToDouble (of_int t - of_int now) \<le> 0 \<longleftrightarrow> t - now \<le> 0"
  unfolding roundToDouble_nonpos by simp

lemma jsFloor_div_exact:
  assumes "0 \<le> n" and "n < 2 ^ 53"
  shows "\<lfloor>roundToDouble (of_int n / 1000)\<rfloor> = n div 1000"
    and "\<lfloor>roundToDouble (of_int n / 86400)\<rfloor> = n div 86400"
    and "\<lfloor>roundToDouble (of_int n / 3600)\<rfloor> = n div 3600"
    and "\<lfloor>roundToDouble (of_int n / 60)\<rfloor> = n div 60"
  using floor_roundToDouble_div [OF assms, of 1000] floor_roundToDouble_div [OF assms, of 86400]
    floor_roundToDouble_div [OF assms, of 3600] floor_roundToDouble_div [OF assms, of 60]
  by simp_all

lemma totalSeconds_nonpositive:
  assumes "x \<le> 0"
  shows "max 0 \<lfloor>roundToDouble (x / 1000)\<rfloor> = 0"
proof -
  from assms have "x / 1000 \<le> 0" by simp
  then have "roundToDouble (x / 1000) \<le> 0" by (simp only: roundToDouble_nonpos)
  then have "\<lfloor>roundToDouble (x / 1000)\<rfloor> \<le> 0" by (simp add: floor_le_iff)
  then show ?thesis by simp
qed

lemma totalSeconds_exact:
  assumes "\<bar>t - now\<bar> < 2 ^ 53"
  shows "max 0 \<lfloor>roundToDouble (roundToDouble (of_int t - of_int now) / 1000)\<rfloor>
           = max 0 ((t - now) div 1000)"
proof -
  define n where "n = t - now"
  have e: "of_int t - of_int now = (of_int n :: rat)" by (simp add: n_def)
  from assms have b: "\<bar>n\<bar> < 2 ^ 53" by (simp add: n_def)
  have d: "roundToDouble (of_int n) = of_int n"
    using b by (rule roundToDouble_of_int)
  have "max 0 \<lfloor>roundToDouble (of_int n / 1000)\<rfloor> = max 0 (n div 1000)"
  proof (cases "0 \<le> n")
    case True
    moreover from b True have "n < 2 ^ 53" by simp
    ultimately have "\<lfloor>roundToDouble (of_int n / 1000)\<rfloor> = n div 1000"
      by (rule jsFloor_div_exact(1))
    then show ?thesis by simp
  next
    case False
    then have "(of_int n :: rat) \<le> 0" by simp
    from totalSeconds_nonpositive [OF this] False show ?thesis by simp
  qed
  with d have "max 0 \<lfloor>roundToDouble (roundToDouble (of_int n) / 1000)\<rfloor>
      = max 0 (n div 1000)" by simp
  then show ?thesis unfolding e unfolding n_def .
qed


lemma tick_parts:
  assumes "0 \<le> ts" and "ts < 2 ^ 53"
  shows "\<lfloor>roundToDouble (of_int ts / 86400)\<rfloor> = ts div 86400"
    and "\<lfloor>roundToDouble (of_int (ts mod 86400) / 3600)\<rfloor> = ts mod 86400 div 3600"
    and "\<lfloor>roundToDouble (of_int (ts mod 3600) / 60)\<rfloor> = ts mod 3600 div 60"
proof -
  from assms show "\<lfloor>roundToDouble (of_int ts / 86400)\<rfloor> = ts div 86400"
    by (rule jsFloor_div_exact(2))
  have "0 \<le> ts mod 86400" and "ts mod 86400 < 2 ^ 53" by simp_all
  then show "\<lfloor>roundToDouble (of_int (ts mod 86400) / 3600)\<rfloor> = ts mod 86400 div 3600"
    by (rule jsFloor_div_exact(3))
  have "0 \<le> ts mod 3600" and "ts mod 3600 < 2 ^ 53" by simp_all
  then show "\<lfloor>roundToDouble (of_int (ts mod 3600) / 60)\<rfloor> = ts mod 3600 div 60"
    by (rule jsFloor_div_exact(4))
qed

lemma tick_exact:
  assumes "\<bar>target v - now\<bar> < 2 ^ 53"
  shows "tick now v =
     (let diffMs = target v - now;
          totalSeconds = max 0 (diffMs div 1000);
          v1 = v\<lparr>valueEls := \<lparr>days = pad (totalSeconds div 86400),
                               hours = pad (totalSeconds mod 86400 div 3600),
                               minutes = pad (totalSeconds mod 3600 div 60),
                               seconds = pad (totalSeconds mod 60)\<rparr>\<rparr>
      in if diffMs \<le> 0 then clearOwnInterval (v1\<lparr>expired := True\<rparr>)
         else v1\<lparr>expired := False\<rparr>)"
proof -
  define ts where "ts = max 0 ((target v - now) div 1000)"
  have ts0: "0 \<le> ts" by (simp add: ts_def)
  from assms have ts53: "ts < 2 ^ 53" unfolding ts_def by simp
  note p = tick_parts [OF ts0 ts53]
  show ?thesis
    unfolding tick_def Let_def totalSeconds_exact [OF assms] tick_diffMs_sign
      ts_def [symmetric] p
    by (rule refl)
qed

lemma valueEls_tick:
  assumes "\<bar>target v - now\<bar> < 2 ^ 53"
  shows "valueEls (tick now v) =
     \<lparr>days = pad (max 0 ((target v - now) div 1000) div 86400),
      hours = pad (max 0 ((target v - now) div 1000) mod 86400 div 3600),
      minutes = pad (max 0 ((target v - now) div 1000) mod 3600 div 60),
      seconds = pad (max 0 ((target v - now) div 1000) mod 60)\<rparr>"
  by (simp add: tick_exact [OF assms] Let_def)

lemma decompose_seconds:
  fixes ts :: int
  shows "ts div 86400 * 86400 + ts mod 86400 div 3600 * 3600 + ts mod 3600 div 60 * 60
           + ts mod 60 = ts"
proof -
  have a: "ts mod 86400 mod 3600 = ts mod 3600" by (simp add: mod_mod_cancel)
  have b: "ts mod 3600 mod 60 = ts mod 60" by (simp add: mod_mod_cancel)
  have "ts = ts div 86400 * 86400 + ts mod 86400" by simp
  also have "ts mod 86400 = ts mod 86400 div 3600 * 3600 + ts mod 86400 mod 3600" by simp
  also have "ts mod 86400 mod 3600 = ts mod 3600 div 60 * 60 + ts mod 3600 mod 60"
    unfolding a by simp
  finally show ?thesis unfolding b by simp
qed

text \<open>
  Claim C8: on every tick whose distance to the target is below \<open>2^53\<close> milliseconds, as
  it is for every target while the clock reads a time between the years 1970 and 10000,
  the four value elements show the whole seconds left, \<open>max 0 ((target - now) div 1000)\<close>,
  split into days, hours, minutes and seconds: the source's arithmetic on doubles is
  exact there. Each element is the decimal numeral of its part, padded with zeros to two
  digits at least; the parts add up to the whole seconds, hours stay below 24 and
  minutes and seconds below 60. With 90061 seconds left every element reads 01.
\<close>

theorem tick_display:
  assumes "\<bar>target v - now\<bar> < 2 ^ 53"
  shows
  "(let ts = max 0 ((target v - now) div 1000);
        els = valueEls (tick now v)
    in els = \<lparr>days = pad (ts div 86400), hours = pad (ts mod 86400 div 3600),
              minutes = pad (ts mod 3600 div 60), seconds = pad (ts mod 60)\<rparr>
       \<and> int (decimalValue (days els)) = ts div 86400
       \<and> int (decimalValue (hours els)) = ts mod 86400 div 3600
       \<and> int (decimalValue (minutes els)) = ts mod 3600 div 60
       \<and> int (decimalValue (seconds els)) = ts mod 60
       \<and> int (decimalValue (days els)) * 86400 + int (decimalValue (hours els)) * 3600
           + int (decimalValue (minutes els)) * 60 + int (decimalValue (seconds els)) = ts
       \<and> decimalValue (hours els) < 24 \<and> decimalValue (minutes els) < 60
       \<and> decimalValue (seconds els) < 60
       \<and> 2 \<le> length (days els) \<and> length (hours els) = 2 \<and> length (minutes els) = 2
       \<and> length (seconds els) = 2
       \<and> list_all isDecimalDigit (days els @ hours els @ minutes els @ seconds els)
       \<and> (ts = 90061 \<longrightarrow>
            els = \<lparr>days = ascii ''01'', hours = ascii ''01'', minutes = ascii ''01'',
                    seconds = ascii ''01''\<rparr>))"
proof -
  define ts where "ts = max 0 ((target v - now) div 1000)"
  define els where "els = valueEls (tick now v)"
  define d where "d = ts div 86400"
  define h where "h = ts mod 86400 div 3600"
  define m where "m = ts mod 3600 div 60"
  define s where "s = ts mod 60"
  have ts: "0 \<le> ts" by (simp add: ts_def)
  have e: "els = \<lparr>days = pad d, hours = pad h, minutes = pad m, seconds = pad s\<rparr>"
    by (simp add: els_def ts_def d_def h_def m_def s_def valueEls_tick [OF assms])
  from ts have d0: "0 \<le> d" by (simp add: d_def)
  have h0: "0 \<le> h" and h1: "h < 24" by (simp_all add: h_def)
  have m0: "0 \<le> m" and m1: "m < 60" by (simp_all add: m_def)
  have s0: "0 \<le> s" and s1: "s < 60" by (simp_all add: s_def)
  have vd: "int (decimalValue (days els)) = d"
    using d0 by (simp add: e pad_nonneg(1))
  have vh: "int (decimalValue (hours els)) = h"
    using h0 by (simp add: e pad_nonneg(1))
  have vm: "int (decimalValue (minutes els)) = m"
    using m0 by (simp add: e pad_nonneg(1))
  have vs: "int (decimalValue (seconds els)) = s"
    using s0 by (simp add: e pad_nonneg(1))
  have sum: "int (decimalValue (days els)) * 86400 + int (decimalValue (hours els)) * 3600
           + int (decimalValue (minutes els)) * 60 + int (decimalValue (seconds els)) = ts"
    unfolding vd vh vm vs d_def h_def m_def s_def by (rule decompose_seconds)
  have bh: "decimalValue (hours els) < 24" using vh h1 by linarith
  have bm: "decimalValue (minutes els) < 60" using vm m1 by linarith
  have bs: "decimalValue (seconds els) < 60" using vs s1 by linarith
  have ld: "2 \<le> length (days els)" using d0 by (simp add: e pad_nonneg(2))
  have lh: "length (hours els) = 2" using h0 h1 by (simp add: e pad_nonneg(4))
  have lm: "length (minutes els) = 2" using m0 m1 by (simp add: e pad_nonneg(4))
  have ls: "length (seconds els) = 2" using s0 s1 by (simp add: e pad_nonneg(4))
  have dg: "list_all isDecimalDigit (days els @ hours els @ minutes els @ seconds els)"
    using d0 h0 m0 s0 by (simp add: e pad_nonneg(3))
  have ex: "ts = 90061 \<longrightarrow>
      els = \<lparr>days = ascii ''01'', hours = ascii ''01'', minutes = ascii ''01'',
              seconds = ascii ''01''\<rparr>"
  proof
    assume "ts = 90061"
    then have "d = 1" "h = 1" "m = 1" "s = 1" by (simp_all add: d_def h_def m_def s_def)
    then show "els = \<lparr>days = ascii ''01'', hours = ascii ''01'', minutes = ascii ''01'',
              seconds = ascii ''01''\<rparr>"
      by (simp add: e pad_1)
  qed
  from e vd vh vm vs sum bh bm bs ld lh lm ls dg ex show ?thesis
    unfolding Let_def d_def h_def m_def s_def ts_def els_def by (intro conjI) assumption+
qed

theorem tick_display_witness:
  "\<bar>(1893456000000::int) - 1762163938877\<bar> < 2 ^ 53
   \<and> max 0 (((1893456000000::int) - 1762163938877) div 1000) = 131292061
   \<and> valueEls (tick 1762163938877
        \<lparr>target = 1893456000000, label = ascii ''Launch'', color = ascii ''#2E90FA'',
         hasContext = True, intervalId = Some 7,
         valueEls = \<lparr>days = ascii ''00'', hours = ascii ''00'', minutes = ascii ''00'',
                      seconds = ascii ''00''\<rparr>,
         expired = False, windowIntervals = {7}\<rparr>)
     = \<lparr>days = ascii ''1519'', hours = ascii ''14'', minutes = ascii ''01'',
        seconds = ascii ''01''\<rparr>"
proof -
  define v :: CountdownView where
    "v = \<lparr>target = 1893456000000, label = ascii ''Launch'', color = ascii ''#2E90FA'',
           hasContext = True, intervalId = Some 7,
           valueEls = \<lparr>days = ascii ''00'', hours = ascii ''00'', minutes = ascii ''00'',
                        seconds = ascii ''00''\<rparr>,
           expired = False, windowIntervals = {7}\<rparr>"
  have b: "\<bar>target v - 1762163938877\<bar> < 2 ^ 53" by (simp add: v_def)
  have ts: "max 0 ((target v - 1762163938877) div 1000) = 131292061" by (simp add: v_def)
  have p: "pad 1519 = ascii ''1519''" "pad 14 = ascii ''14''" "pad 1 = ascii ''01''"
    by code_simp+
  from tick_display [OF b]
  have "valueEls (tick 1762163938877 v)
      = \<lparr>days = pad (131292061 div 86400), hours = pad (131292061 mod 86400 div 3600),
         minutes = pad (131292061 mod 3600 div 60), seconds = pad (131292061 mod 60)\<rparr>"
    unfolding Let_def ts by blast
  then have "valueEls (tick 1762163938877 v)
      = \<lparr>days = ascii ''1519'', hours = ascii ''14'', minutes = ascii ''01'',
         seconds = ascii ''01''\<rparr>"
    by (simp add: p)
  then show ?thesis unfolding v_def by simp
qed













section \<open>Properties of the edit modal\<close>

lemma handleSubmit_empty:
  "targetValue m = [] \<Longrightarrow>
   handleSubmit dateParse strings settings onSubmit m
     = m\<lparr>notices := notices m @ [emptyWarning strings]\<rparr>"
  by (simp add: handleSubmit_def)

lemma handleSubmit_unparsable:
  "targetValue m \<noteq> [] \<Longrightarrow> parseTargetDate dateParse (Some (targetValue m)) = None \<Longrightarrow>
   handleSubmit dateParse strings settings onSubmit m
     = m\<lparr>notices := notices m @ [parseWarning strings]\<rparr>"
  by (simp add: handleSubmit_def)

lemma handleSubmit_parsed:
  assumes "targetValue m \<noteq> []"
    and "parseTargetDate dateParse (Some (targetValue m)) = Some parsed"
    and "result = \<lparr>target = parsed,
                    label = orString (Some (trim (labelValue m)))
                              (getDefaultLabel strings settings),
                    color = (case normaliseColor (Some (colorValue m)) of
                               None \<Rightarrow> defaultColor settings
                             | Some c \<Rightarrow> c)\<rparr>"
  shows "handleSubmit dateParse strings settings onSubmit m
           = (if onSubmit result
              then m\<lparr>submitted := submitted m @ [result], isOpen := False\<rparr>
              else m\<lparr>submitted := submitted m @ [result],
                     notices := notices m @ [applyError strings]\<rparr>)"
  using assms by (simp add: handleSubmit_def Let_def)

lemma handleSubmit_closes:
  assumes "isOpen m" and "\<not> isOpen (handleSubmit dateParse strings settings onSubmit m)"
  shows "\<exists>result. submitted (handleSubmit dateParse strings settings onSubmit m)
                     = submitted m @ [result] \<and> onSubmit result"
proof (cases "targetValue m = []")
  case True
  with assms show ?thesis by (simp add: handleSubmit_empty)
next
  case False
  show ?thesis
  proof (cases "parseTargetDate dateParse (Some (targetValue m))")
    case None
    with False assms show ?thesis by (simp add: handleSubmit_unparsable)
  next
    case (Some parsed)
    define result where
      "result = \<lparr>target = parsed,
                 label = orString (Some (trim (labelValue m)))
                           (getDefaultLabel strings settings),
                 color = (case normaliseColor (Some (colorValue m)) of
                            None \<Rightarrow> defaultColor settings
                          | Some c \<Rightarrow> c)\<rparr>"
    note r = handleSubmit_parsed [OF False Some result_def, of onSubmit]
    show ?thesis
    proof (cases "onSubmit result")
      case True
      with r show ?thesis by simp
    next
      case no: False
      with r assms show ?thesis by simp
    qed
  qed
qed

text \<open>
  Claim C6: a submission with an empty target field only shows the empty warning, and
  one with a target that does not parse only shows the parse warning; in both the
  handler is not called and the modal is left as it was. Otherwise the handler is
  called once, with the parsed target, the trimmed label or the default label, and the
  normalised colour or the default colour; when it throws, the apply-error notice is
  shown and the modal stays as open as it was, and when it returns the modal is closed.
  So an open modal is closed by a submission only after the handler has returned, or
  else by the cancel button.
\<close>

theorem handleSubmit_outcomes:
  "(targetValue m = [] \<longrightarrow>
      handleSubmit dateParse strings settings onSubmit m
        = m\<lparr>notices := notices m @ [emptyWarning strings]\<rparr>)
   \<and> (targetValue m \<noteq> [] \<and> parseTargetDate dateParse (Some (targetValue m)) = None \<longrightarrow>
        handleSubmit dateParse strings settings onSubmit m
          = m\<lparr>notices := notices m @ [parseWarning strings]\<rparr>)
   \<and> (\<forall>parsed result. targetValue m \<noteq> []
          \<and> parseTargetDate dateParse (Some (targetValue m)) = Some parsed
          \<and> result = \<lparr>target = parsed,
                       label = orString (Some (trim (labelValue m)))
                                 (getDefaultLabel strings settings),
                       color = (case normaliseColor (Some (colorValue m)) of
                                  None \<Rightarrow> defaultColor settings
                                | Some c \<Rightarrow> c)\<rparr> \<longrightarrow>
        handleSubmit dateParse strings settings onSubmit m
          = (if onSubmit result
             then m\<lparr>submitted := submitted m @ [result], isOpen := False\<rparr>
             else m\<lparr>submitted := submitted m @ [result],
                    notices := notices m @ [applyError strings]\<rparr>))
   \<and> (isOpen m \<and> \<not> isOpen (handleSubmit dateParse strings settings onSubmit m) \<longrightarrow>
        (\<exists>result. submitted (handleSubmit dateParse strings settings onSubmit m)
                     = submitted m @ [result] \<and> onSubmit result))
   \<and> \<not> isOpen (cancel m)"
proof -
  have c: "\<not> isOpen (cancel m)" by (simp add: cancel_def)
  from handleSubmit_empty [of m dateParse strings settings onSubmit]
    handleSubmit_unparsable [of m dateParse strings settings onSubmit]
    handleSubmit_parsed [of m dateParse _ _ strings settings onSubmit]
    handleSubmit_closes [of m dateParse strings settings onSubmit] c
  show ?thesis by blast
qed

theorem handleSubmit_outcomes_witness:
  "handleSubmit (\<lambda>s. if s = ascii ''2030-01-01T00:00'' then Some 1893456000000 else None)
     enStrings DEFAULT_SETTINGS (\<lambda>r. False)
     \<lparr>targetValue = [], labelValue = ascii '' Launch '', colorValue = ascii ''#2e90fa'',
      isOpen = True, notices = [], submitted = []\<rparr>
   = \<lparr>targetValue = [], labelValue = ascii '' Launch '', colorValue = ascii ''#2e90fa'',
      isOpen = True, notices = [ascii ''Please choose a target date and time.''],
      submitted = []\<rparr>
   \<and> handleSubmit (\<lambda>s. if s = ascii ''2030-01-01T00:00'' then Some 1893456000000 else None)
       enStrings DEFAULT_SETTINGS (\<lambda>r. False)
       \<lparr>targetValue = ascii ''soon'', labelValue = ascii '' Launch '',
        colorValue = ascii ''#2e90fa'', isOpen = True, notices = [], submitted = []\<rparr>
     = \<lparr>targetValue = ascii ''soon'', labelValue = ascii '' Launch '',
        colorValue = ascii ''#2e90fa'', isOpen = True,
        notices = [ascii ''Unable to parse the target date.''], submitted = []\<rparr>
   \<and> handleSubmit (\<lambda>s. if s = ascii ''2030-01-01T00:00'' then Some 1893456000000 else None)
       enStrings DEFAULT_SETTINGS (\<lambda>r. False)
       \<lparr>targetValue = ascii ''2030-01-01T00:00'', labelValue = ascii '' Launch '',
        colorValue = ascii ''#2e90fa'', isOpen = True, notices = [], submitted = []\<rparr>
     = \<lparr>targetValue = ascii ''2030-01-01T00:00'', labelValue = ascii '' Launch '',
        colorValue = ascii ''#2e90fa'', isOpen = True,
        notices = [ascii ''Failed to apply countdown changes.''],
        submitted = [\<lparr>target = 1893456000000, label = ascii ''Launch'',
                       color = ascii ''#2E90FA''\<rparr>]\<rparr>
   \<and> handleSubmit (\<lambda>s. if s = ascii ''2030-01-01T00:00'' then Some 1893456000000 else None)
       enStrings DEFAULT_SETTINGS (\<lambda>r. True)
       \<lparr>targetValue = ascii ''2030-01-01T00:00'', labelValue = ascii '' Launch '',
        colorValue = ascii ''#2e90fa'', isOpen = True, notices = [], submitted = []\<rparr>
     = \<lparr>targetValue = ascii ''2030-01-01T00:00'', labelValue = ascii '' Launch '',
        colorValue = ascii ''#2e90fa'', isOpen = False, notices = [],
        submitted = [\<lparr>target = 1893456000000, label = ascii ''Launch'',
                       color = ascii ''#2E90FA''\<rparr>]\<rparr>"
proof -
  let ?dp = "\<lambda>s. if s = ascii ''2030-01-01T00:00'' then Some (1893456000000::int) else None"
  let ?m = "\<lambda>t. \<lparr>targetValue = t, labelValue = ascii '' Launch '',
                  colorValue = ascii ''#2e90fa'', isOpen = True, notices = [],
                  submitted = []\<rparr>"
  let ?result = "\<lparr>target = 1893456000000::int, label = ascii ''Launch'',
                  color = ascii ''#2E90FA''\<rparr>"
  have p1: "parseTargetDate ?dp (Some (ascii ''soon'')) = None"
    by (simp add: eval_defs)
  have p2: "parseTargetDate ?dp (Some (ascii ''2030-01-01T00:00'')) = Some 1893456000000"
    by (simp add: eval_defs)
  have r: "?result = \<lparr>target = 1893456000000,
                       label = orString (Some (trim (labelValue (?m (ascii ''2030-01-01T00:00'')))))
                                 (getDefaultLabel enStrings DEFAULT_SETTINGS),
                       color = (case normaliseColor
                                  (Some (colorValue (?m (ascii ''2030-01-01T00:00'')))) of
                                  None \<Rightarrow> defaultColor DEFAULT_SETTINGS
                                | Some c \<Rightarrow> c)\<rparr>"
    by (simp add: eval_defs)
  have a: "handleSubmit ?dp enStrings DEFAULT_SETTINGS (\<lambda>r. False) (?m [])
      = (?m [])\<lparr>notices := notices (?m []) @ [emptyWarning enStrings]\<rparr>"
    using handleSubmit_outcomes [of "?m []" ?dp enStrings DEFAULT_SETTINGS "\<lambda>r. False"]
    by simp
  have b: "handleSubmit ?dp enStrings DEFAULT_SETTINGS (\<lambda>r. False) (?m (ascii ''soon''))
      = (?m (ascii ''soon''))\<lparr>notices := notices (?m (ascii ''soon''))
                                   @ [parseWarning enStrings]\<rparr>"
    using handleSubmit_outcomes [of "?m (ascii ''soon'')" ?dp enStrings DEFAULT_SETTINGS
        "\<lambda>r. False"] p1
    by (simp add: ascii_def)
  have c: "handleSubmit ?dp enStrings DEFAULT_SETTINGS (\<lambda>r. False)
             (?m (ascii ''2030-01-01T00:00''))
      = (?m (ascii ''2030-01-01T00:00''))
          \<lparr>submitted := submitted (?m (ascii ''2030-01-01T00:00'')) @ [?result],
           notices := notices (?m (ascii ''2030-01-01T00:00''))
                        @ [applyError enStrings]\<rparr>"
    using handleSubmit_outcomes [of "?m (ascii ''2030-01-01T00:00'')" ?dp enStrings
        DEFAULT_SETTINGS "\<lambda>r. False"] p2 r
    by (simp add: ascii_def)
  have d: "handleSubmit ?dp enStrings DEFAULT_SETTINGS (\<lambda>r. True)
             (?m (ascii ''2030-01-01T00:00''))
      = (?m (ascii ''2030-01-01T00:00''))
          \<lparr>submitted := submitted (?m (ascii ''2030-01-01T00:00'')) @ [?result],
           isOpen := False\<rparr>"
    using handleSubmit_outcomes [of "?m (ascii ''2030-01-01T00:00'')" ?dp enStrings
        DEFAULT_SETTINGS "\<lambda>r. True"] p2 r
    by (simp add: ascii_def)
  from a b c d show ?thesis by (simp add: enStrings_def)
qed

section \<open>Properties of the settings panel\<close>

lemma durationChanged_ignored:
  "toNumber v = NaN \<or> toNumber v = PosInfinity \<or> toNumber v = NegInfinity
     \<or> (\<exists>x. toNumber v = Finite x \<and> x \<le> 0) \<Longrightarrow>
   durationChanged toNumber v settings = settings"
  by (auto simp: durationChanged_def)

lemma durationChanged_at_least_one:
  assumes "toNumber v = Finite x" and "1 \<le> x"
  shows "defaultDurationMinutes (durationChanged toNumber v settings) = of_int \<lfloor>x\<rfloor>"
    and "positiveInteger (defaultDurationMinutes (durationChanged toNumber v settings))"
proof -
  from assms show
    e: "defaultDurationMinutes (durationChanged toNumber v settings) = of_int \<lfloor>x\<rfloor>"
    by (simp add: durationChanged_def)
  from assms(2) have "1 \<le> \<lfloor>x\<rfloor>" by (simp add: le_floor_iff)
  then show "positiveInteger (defaultDurationMinutes (durationChanged toNumber v settings))"
    unfolding e positiveInteger_def by simp
qed

text \<open>
  Claim C5 fails on the code: a finite input strictly between 0 and 1 passes the test
  on the parsed number and is floored afterwards, so 0 is stored and the duration is no
  longer a positive integer.
\<close>

theorem durationChanged_below_one:
  assumes "toNumber v = Finite x" and "0 < x" and "x < 1"
  shows "defaultDurationMinutes (durationChanged toNumber v settings) = 0
         \<and> \<not> positiveInteger (defaultDurationMinutes (durationChanged toNumber v settings))"
proof -
  from assms(2,3) have "\<lfloor>x\<rfloor> = 0" by (simp add: floor_eq_iff)
  with assms show ?thesis by (simp add: durationChanged_def positiveInteger_def)
qed

theorem durationChanged_below_one_witness:
  "positiveInteger (defaultDurationMinutes DEFAULT_SETTINGS)
   \<and> defaultDurationMinutes
       (durationChanged (\<lambda>s. if s = ascii ''0.5'' then Finite (1 / 2) else NaN)
          (ascii ''0.5'') DEFAULT_SETTINGS) = 0
   \<and> \<not> positiveInteger
         (defaultDurationMinutes
            (durationChanged (\<lambda>s. if s = ascii ''0.5'' then Finite (1 / 2) else NaN)
               (ascii ''0.5'') DEFAULT_SETTINGS))"
proof -
  have p: "positiveInteger (defaultDurationMinutes DEFAULT_SETTINGS)"
    by (simp add: positiveInteger_def DEFAULT_SETTINGS_def)
  have 1: "(\<lambda>s. if s = ascii ''0.5'' then Finite (1 / 2) else NaN) (ascii ''0.5'')
             = Finite (1 / 2)" by simp
  have 2: "(0::rat) < 1 / 2" and 3: "(1::rat) / 2 < 1" by simp_all
  from durationChanged_below_one
         [of "\<lambda>s. if s = ascii ''0.5'' then Finite (1 / 2) else NaN" "ascii ''0.5''" "1 / 2"
            DEFAULT_SETTINGS] 1 2 3 p
  show ?thesis by blast
qed

section \<open>Properties of the locale resolution\<close>

lemma toLowerCase_z: "toLowerCase c = 0x7A \<longleftrightarrow> c = 0x7A \<or> c = 0x5A"
proof -
  have "c + 0x20 = 0x7A \<longleftrightarrow> c = 0x5A"
  proof
    assume "c + 0x20 = 0x7A"
    then have "c + 0x20 - 0x20 = 0x7A - 0x20" by simp
    then show "c = 0x5A" by simp
  qed simp
  then show ?thesis by (auto simp: toLowerCase_def)
qed

lemma toLowerCase_h: "toLowerCase c = 0x68 \<longleftrightarrow> c = 0x68 \<or> c = 0x48"
proof -
  have "c + 0x20 = 0x68 \<longleftrightarrow> c = 0x48"
  proof
    assume "c + 0x20 = 0x68"
    then have "c + 0x20 - 0x20 = 0x68 - 0x20" by simp
    then show "c = 0x48" by simp
  qed simp
  then show ?thesis by (auto simp: toLowerCase_def)
qed

lemma startsWith_zh:
  "startsWith (map toLowerCase l) (ascii ''zh'') \<longleftrightarrow>
     (\<exists>z h rest. l = z # h # rest \<and> (z = 0x7A \<or> z = 0x5A) \<and> (h = 0x68 \<or> h = 0x48))"
proof (cases l)
  case Nil
  then show ?thesis by (simp add: startsWith_def ascii_def)
next
  case (Cons z t)
  show ?thesis
  proof (cases t)
    case Nil
    with Cons show ?thesis by (simp add: startsWith_def ascii_def)
  next
    case (Cons h rest)
    with \<open>l = z # t\<close> show ?thesis
      by (simp add: startsWith_def ascii_def toLowerCase_z toLowerCase_h)
  qed
qed

lemma tableFor_spec_eq:
  "tableFor_spec l = (if startsWith (map toLowerCase l) (ascii ''zh'') then zhStrings else enStrings)"
proof (cases l)
  case Nil
  then show ?thesis by (simp add: tableFor_spec_def startsWith_def ascii_def)
next
  case (Cons z t)
  show ?thesis
  proof (cases t)
    case Nil
    with Cons show ?thesis by (simp add: tableFor_spec_def startsWith_def ascii_def)
  next
    case (Cons h rest)
    with \<open>l = z # t\<close> show ?thesis
      unfolding startsWith_zh by (simp add: tableFor_spec_def)
  qed
qed

text \<open>
  Claim C9, as the code has it: the locale is the answer of the first provider, in the
  order locale field, language field, vault configuration, browser storage, navigator
  language, that answers with a string, be it empty, and \<open>en\<close> when none does; the
  Chinese table is chosen exactly when the locale starts with \<open>zh\<close> in either case.
\<close>

theorem getTranslations_resolution:
  "getTranslations app window navigator
     = tableFor_spec (firstString_spec (localeProviders app window navigator))"
  unfolding tableFor_spec_eq
  by (simp add: getTranslations_def localeProviders_def Let_def split: option.splits)

theorem getTranslations_resolution_witness:
  "getTranslations
     \<lparr>props = (\<lambda>key. if key = ascii ''locale'' then Some JSOther else None),
      vaultGetConfig = Some (\<lambda>key. JSOther)\<rparr>
     (Some \<lparr>localStorage = Some (\<lambda>key. if key = ascii ''lang'' then Some (ascii ''ZH-tw'')
                                         else None)\<rparr>)
     (Some (JSString (ascii ''en-US'')))
   = zhStrings"
  using getTranslations_resolution
    [of "\<lparr>props = (\<lambda>key. if key = ascii ''locale'' then Some JSOther else None),
          vaultGetConfig = Some (\<lambda>key. JSOther)\<rparr>"
        "Some \<lparr>localStorage = Some (\<lambda>key. if key = ascii ''lang''
                                              then Some (ascii ''ZH-tw'') else None)\<rparr>"
        "Some (JSString (ascii ''en-US''))"]
  by (simp add: localeProviders_def tableFor_spec_def getObjectString_def
      getOptionalString_def getVaultLocale_def storageLanguage_def navigatorLanguage_def
      ascii_def)

text \<open>
  Claim C9 as stated fails: an empty locale field wins over a Chinese language field,
  although the first non-empty answer is the latter.
\<close>

theorem getTranslations_empty_locale_counterexample:
  "getTranslations
     \<lparr>props = (\<lambda>key. if key = ascii ''locale'' then Some (JSString [])
                     else if key = ascii ''lang'' then Some (JSString (ascii ''zh-CN''))
                     else None),
      vaultGetConfig = None\<rparr> None None = enStrings
   \<and> tableFor_spec (firstNonEmpty_spec (localeProviders
       \<lparr>props = (\<lambda>key. if key = ascii ''locale'' then Some (JSString [])
                       else if key = ascii ''lang'' then Some (JSString (ascii ''zh-CN''))
                       else None),
        vaultGetConfig = None\<rparr> None None)) = zhStrings
   \<and> enStrings \<noteq> zhStrings"
  by (simp add: getTranslations_def localeProviders_def tableFor_spec_def getObjectString_def
      getOptionalString_def getVaultLocale_def storageLanguage_def navigatorLanguage_def
      startsWith_def ascii_def enStrings_def zhStrings_def)

end
